theory Spec2Isabelle
  imports Main
begin

section \<open>Request Responder\<close>

text \<open>
  \<^verbatim>\<open>server.js\<close> answers requests in two ways: through the Express application \<^verbatim>\<open>app\<close>
  (lines 21-64, the Primary strategy) and through the request listener handed to
  \<^verbatim>\<open>http.createServer\<close> in \<^verbatim>\<open>startHttpFallback\<close> (lines 115-131, the Fallback strategy).
  Both read only \<^verbatim>\<open>req.method\<close> and \<^verbatim>\<open>req.url\<close>, so a request is that pair. Request
  bodies are not modelled: no handler reads one, and \<^verbatim>\<open>express.json()\<close> passes a request
  without a body on unchanged.
\<close>

record request =
  req_method :: string
  req_url :: string

text \<open>
  Of a response the status code, the \<^verbatim>\<open>Content-Type\<close> header and the body are kept.
\<close>

record response =
  statusCode :: nat
  contentType :: string
  body :: string

datatype strategy = Primary | Fallback

subsection \<open>Fallback: the listener of \<^verbatim>\<open>startHttpFallback\<close>\<close>

text \<open>
  \<^verbatim>\<open>
  if (req.method === 'GET' && req.url === '/') {
      res.writeHead(200, { 'Content-Type': 'text/plain' });
      res.end('Hello World!');
  } else if (req.method === 'GET' && req.url === '/good-evening') {
      res.writeHead(200, { 'Content-Type': 'text/plain' });
      res.end('Good evening');
  } else {
      res.writeHead(404, { 'Content-Type': 'text/plain' });
      res.end('Not Found');
  }
  \<close>
  \<^verbatim>\<open>===\<close> on two strings is equality of their characters. The body is the string the
  listener hands to \<^verbatim>\<open>res.end\<close>; in answer to a \<^verbatim>\<open>HEAD\<close> request Node sends the head of the
  response only.
\<close>

definition httpFallbackListener :: "request \<Rightarrow> response" where
  "httpFallbackListener req =
     (if req_method req = ''GET'' \<and> req_url req = ''/'' then
        \<lparr>statusCode = 200, contentType = ''text/plain'', body = ''Hello World!''\<rparr>
      else if req_method req = ''GET'' \<and> req_url req = ''/good-evening'' then
        \<lparr>statusCode = 200, contentType = ''text/plain'', body = ''Good evening''\<rparr>
      else
        \<lparr>statusCode = 404, contentType = ''text/plain'', body = ''Not Found''\<rparr>)"

text \<open>The line the listener logs first: \<^verbatim>\<open>[${timestamp}] ${req.method} ${req.url} (HTTP Fallback)\<close>.\<close>

definition fallbackLogLine :: "string \<Rightarrow> request \<Rightarrow> string" where
  "fallbackLogLine timestamp req =
     ''['' @ timestamp @ ''] '' @ req_method req @ '' '' @ req_url req @ '' (HTTP Fallback)''"

subsection \<open>Primary: the Express application\<close>

text \<open>
  Express itself is a dependency (\<^verbatim>\<open>express ^4.21\<close> in the README's \<^verbatim>\<open>package.json\<close>), not a
  source file of the repository. What the source asks of it is written out here, after
  Express 4's documented behaviour with its default settings (the source changes none):
  \<^item> a route is matched against the path of the URL, the part before the first \<^verbatim>\<open>?\<close>;
  \<^item> matching ignores case (\<^verbatim>\<open>case sensitive routing\<close> is off) and allows one trailing
    slash (\<^verbatim>\<open>strict routing\<close> is off);
  \<^item> a route registered with \<^verbatim>\<open>app.get\<close> serves \<^verbatim>\<open>GET\<close> and, no \<^verbatim>\<open>HEAD\<close> route being
    registered, \<^verbatim>\<open>HEAD\<close>;
  \<^item> \<^verbatim>\<open>res.send\<close> of a string answers with status 200 and, no content type having been
    set, \<^verbatim>\<open>Content-Type: text/html; charset=utf-8\<close> (the README's API section lists this
    header for both endpoints); for \<^verbatim>\<open>HEAD\<close> the body is left out;
  \<^item> an \<^verbatim>\<open>OPTIONS\<close> request to a path with a route is answered with the route's methods;
  \<^item> a request no layer answers gets the default 404 page, an HTML document saying
    \<^verbatim>\<open>Cannot METHOD path\<close> (the README's troubleshooting section quotes
    \<^verbatim>\<open>Cannot GET /good-evening\<close>).
\<close>

text \<open>
  The path of a URL in origin form (it starts with a slash, and has no blank, \<^verbatim>\<open>#\<close> or
  \<^verbatim>\<open>;\<close>, for which Express hands the URL to the general parser): what precedes the first
  question mark.
\<close>

definition pathname :: "string \<Rightarrow> string" where
  "pathname u = takeWhile (\<lambda>c. c \<noteq> CHR ''?'') u"

definition toLowerCase_char :: "char \<Rightarrow> char" where
  "toLowerCase_char c =
     (case map_of (zip ''ABCDEFGHIJKLMNOPQRSTUVWXYZ'' ''abcdefghijklmnopqrstuvwxyz'') c of
        Some d \<Rightarrow> d
      | None \<Rightarrow> c)"

definition toLowerCase :: "string \<Rightarrow> string" where
  "toLowerCase s = map toLowerCase_char s"

text \<open>
  The route path \<open>p\<close> matches a request path \<open>q\<close> when \<open>q\<close> is \<open>p\<close> without its final
  slash, or that followed by one slash, case ignored (for \<^verbatim>\<open>'/'\<close> the regular expression is
  \<^verbatim>\<open>/^\/?$/i\<close>, for \<^verbatim>\<open>'/good-evening'\<close> it is \<^verbatim>\<open>/^\/good-evening\/?$/i\<close>).
\<close>

definition route_matches :: "string \<Rightarrow> string \<Rightarrow> bool" where
  "route_matches p q =
     (let stem = toLowerCase (if p \<noteq> [] \<and> last p = CHR ''/'' then butlast p else p)
      in toLowerCase q = stem \<or> toLowerCase q = stem @ ''/'')"

definition get_route_handles :: "string \<Rightarrow> bool" where
  "get_route_handles m = (m = ''GET'' \<or> m = ''HEAD'')"

definition res_send :: "request \<Rightarrow> string \<Rightarrow> response" where
  "res_send req chunk =
     \<lparr>statusCode = 200, contentType = ''text/html; charset=utf-8'',
      body = (if req_method req = ''HEAD'' then [] else chunk)\<rparr>"

definition htmlDocument :: "string \<Rightarrow> string" where
  "htmlDocument msg =
     ''<!DOCTYPE html>'' @ [CHR 0x0A] @ ''<html lang=\"en\">'' @ [CHR 0x0A] @
     ''<head>'' @ [CHR 0x0A] @ ''<meta charset=\"utf-8\">'' @ [CHR 0x0A] @
     ''<title>Error</title>'' @ [CHR 0x0A] @ ''</head>'' @ [CHR 0x0A] @
     ''<body>'' @ [CHR 0x0A] @ ''<pre>'' @ msg @ ''</pre>'' @ [CHR 0x0A] @
     ''</body>'' @ [CHR 0x0A] @ ''</html>'' @ [CHR 0x0A]"

text \<open>
  The default 404 answer. Express escapes the characters of the path that are special in a
  URL or in HTML before it prints them; that escaping is left out, so the body is exact for
  paths without such characters. For \<^verbatim>\<open>HEAD\<close> the body is left out.
\<close>

definition finalhandler :: "request \<Rightarrow> response" where
  "finalhandler req =
     \<lparr>statusCode = 404, contentType = ''text/html; charset=utf-8'',
      body = (if req_method req = ''HEAD'' then []
              else htmlDocument (''Cannot '' @ req_method req @ '' '' @ pathname (req_url req)))\<rparr>"

text \<open>
  The application as \<^verbatim>\<open>server.js\<close> assembles it, in the order of registration: the logging
  middleware and \<^verbatim>\<open>express.json()\<close> both call \<^verbatim>\<open>next()\<close>; then come the two routes
  \<^verbatim>\<open>
  app.get('/', (req, res) => { res.send('Hello World!'); });
  app.get('/good-evening', (req, res) => { res.send('Good evening'); });
  \<close>
  and, nothing else being registered, Express's own answers.
\<close>

definition app :: "request \<Rightarrow> response" where
  "app req =
     (if route_matches ''/'' (pathname (req_url req)) \<and> get_route_handles (req_method req) then
        res_send req ''Hello World!''
      else if route_matches ''/good-evening'' (pathname (req_url req)) \<and> get_route_handles (req_method req) then
        res_send req ''Good evening''
      else if req_method req = ''OPTIONS'' \<and>
              (route_matches ''/'' (pathname (req_url req)) \<or>
               route_matches ''/good-evening'' (pathname (req_url req))) then
        res_send req ''GET,HEAD''
      else finalhandler req)"

text \<open>The line of the logging middleware: \<^verbatim>\<open>[${timestamp}] ${req.method} ${req.url}\<close>.\<close>

definition appLogLine :: "string \<Rightarrow> request \<Rightarrow> string" where
  "appLogLine timestamp req = ''['' @ timestamp @ ''] '' @ req_method req @ '' '' @ req_url req"

subsection \<open>Serving a sequence of requests\<close>

text \<open>
  The only thing a request leaves behind is its line on the console. A server under a
  strategy takes the console so far, the time stamp \<^verbatim>\<open>new Date().toISOString()\<close> gives at
  the request's arrival and the request, and returns the console and the response.
\<close>

definition respond :: "strategy \<Rightarrow> request \<Rightarrow> response" where
  "respond s req = (case s of Primary \<Rightarrow> app req | Fallback \<Rightarrow> httpFallbackListener req)"

definition handle_request :: "strategy \<Rightarrow> string list \<Rightarrow> string \<times> request \<Rightarrow> string list \<times> response" where
  "handle_request s console tr =
     (case s of
        Primary \<Rightarrow> (console @ [appLogLine (fst tr) (snd tr)], app (snd tr))
      | Fallback \<Rightarrow> (console @ [fallbackLogLine (fst tr) (snd tr)], httpFallbackListener (snd tr)))"

fun serve :: "strategy \<Rightarrow> string list \<Rightarrow> (string \<times> request) list \<Rightarrow> string list \<times> response list" where
  "serve s console [] = (console, [])"
| "serve s console (tr # trs) =
     (let (console', r) = handle_request s console tr;
          (console'', rs) = serve s console' trs
      in (console'', r # rs))"

section \<open>Listener Acquisition Controller\<close>

text \<open>
  \<^verbatim>\<open>
  const DEFAULT_PORT = 3000;
  const MAX_PORT = 3010;
  const RETRY_DELAY = 1000; // 1 second base delay
  \<close>
  Ports, retry counts and delays are natural numbers. JavaScript numbers are doubles, which
  are exact on every value that occurs here: the largest is \<open>1000 * 2 ^ 9\<close>.
\<close>

definition DEFAULT_PORT :: nat where
  "DEFAULT_PORT = 3000"

definition MAX_PORT :: nat where
  "MAX_PORT = 3010"

definition RETRY_DELAY :: nat where
  "RETRY_DELAY = 1000"

text \<open>
  What the platform answers to a call of \<^verbatim>\<open>listen\<close>: the socket is bound, or an
  \<^verbatim>\<open>'error'\<close> event follows whose \<^verbatim>\<open>error.code\<close> is the string given (\<^verbatim>\<open>'EADDRINUSE'\<close> for
  a port conflict). The platform is a parameter of the model: for each strategy and port
  it says which answer a bind attempt gets, the same answer each time that port is
  attempted under that strategy.
\<close>

datatype listen_result = Listening | Error string

type_synonym platform = "strategy \<Rightarrow> nat \<Rightarrow> listen_result"

text \<open>
  A number inside a template literal, \<^verbatim>\<open>${port}\<close>: its decimal digits. \<open>digit\<close> is only
  applied to numbers below ten.
\<close>

definition digit :: "nat \<Rightarrow> char" where
  "digit d = ''0123456789'' ! d"

function toString :: "nat \<Rightarrow> string" where
  "toString n = (if n < 10 then [digit n] else toString (n div 10) @ [digit (n mod 10)])"
  by pat_completeness auto
termination
  by (relation "measure id") auto

declare toString.simps [simp del]

text \<open>
  What the process does that can be seen from outside, in order: a bind attempt
  (\<^verbatim>\<open>app.listen(port, ...)\<close> under Primary, \<^verbatim>\<open>server.listen(port, ...)\<close> under Fallback),
  a line on the console, a timer set with \<^verbatim>\<open>setTimeout\<close>, \<^verbatim>\<open>process.exit\<close>, and an
  exception nothing catches.
\<close>

datatype event =
    Listen strategy nat
  | ConsoleLog string
  | ConsoleError string
  | SetTimeout nat
  | ProcessExit nat
  | Uncaught string

text \<open>The four lines both \<^verbatim>\<open>listen\<close> callbacks log, with the name of the server.\<close>

definition listeningLogs :: "string \<Rightarrow> nat \<Rightarrow> event list" where
  "listeningLogs who port =
     [ConsoleLog (who @ '' running on port '' @ toString port),
      ConsoleLog ''Available endpoints:'',
      ConsoleLog ''  GET / - Returns \"Hello World!\"'',
      ConsoleLog ''  GET /good-evening - Returns \"Good evening\"'']"

subsection \<open>Primary: \<^verbatim>\<open>startServer\<close>\<close>

text \<open>
  \<^verbatim>\<open>app.listen\<close> creates a new server at every call, so each server has the one
  \<^verbatim>\<open>'error'\<close> listener registered right after, and each attempt is over before the next
  begins. The function returns what happened, and whether a server is bound or
  \<^verbatim>\<open>startHttpFallback()\<close> has been called.
  \<^verbatim>\<open>
  function startServer(port = DEFAULT_PORT, retryCount = 0) {
      const server = app.listen(port, () => { ...four lines logged... });
      server.on('error', (error) => {
          if (error.code === 'EADDRINUSE') {
              console.log(`Port ${port} is in use, attempting next port...`);
              if (port >= MAX_PORT) {
                  console.error(`All ports from ${DEFAULT_PORT} to ${MAX_PORT} are in use.`);
                  console.log('Attempting fallback to native HTTP server...');
                  startHttpFallback();
                  return;
              }
              const delay = RETRY_DELAY * Math.pow(2, retryCount);
              setTimeout(() => { startServer(port + 1, retryCount + 1); }, delay);
          } else {
              console.error('Server error:', error);
              console.log('Attempting fallback to native HTTP server...');
              startHttpFallback();
          }
      });
  }
  \<close>
  Of \<^verbatim>\<open>console.error('Server error:', error)\<close> the printed error object is left out.
\<close>

datatype handover = Served nat | ToFallback

function startServer :: "platform \<Rightarrow> nat \<Rightarrow> nat \<Rightarrow> event list \<times> handover" where
  "startServer pf port retryCount =
     (case pf Primary port of
        Listening \<Rightarrow> (Listen Primary port # listeningLogs ''Express.js server'' port, Served port)
      | Error code \<Rightarrow>
          if code = ''EADDRINUSE'' then
            if port \<ge> MAX_PORT then
              ([Listen Primary port,
                ConsoleLog (''Port '' @ toString port @ '' is in use, attempting next port...''),
                ConsoleError (''All ports from '' @ toString DEFAULT_PORT @ '' to '' @
                              toString MAX_PORT @ '' are in use.''),
                ConsoleLog ''Attempting fallback to native HTTP server...''], ToFallback)
            else
              (let delay = RETRY_DELAY * 2 ^ retryCount;
                   (evs, h) = startServer pf (port + 1) (retryCount + 1)
               in ([Listen Primary port,
                    ConsoleLog (''Port '' @ toString port @ '' is in use, attempting next port...''),
                    SetTimeout delay] @ evs, h))
          else
            ([Listen Primary port,
              ConsoleError ''Server error:'',
              ConsoleLog ''Attempting fallback to native HTTP server...''], ToFallback))"
  by pat_completeness auto
termination
  by (relation "measure (\<lambda>(pf, port, retryCount). MAX_PORT - port)") auto

declare startServer.simps [simp del]

subsection \<open>Fallback: \<^verbatim>\<open>startHttpFallback\<close> and \<^verbatim>\<open>startHttpServerWithFallback\<close>\<close>

text \<open>
  \<^verbatim>\<open>startHttpFallback\<close> creates one server and \<^verbatim>\<open>startHttpServerWithFallback\<close> works on
  that one object at every call:
  \<^verbatim>\<open>
  function startHttpServerWithFallback(server, port) {
      server.listen(port, () => { ...four lines logged... });
      server.on('error', (error) => {
          if (error.code === 'EADDRINUSE' && port < MAX_PORT) {
              console.log(`Port ${port} is in use, trying port ${port + 1}...`);
              startHttpServerWithFallback(server, port + 1);
          } else {
              console.error('Fatal error: Unable to start server on any available port');
              process.exit(1);
          }
      });
  }
  \<close>
  Each call registers one more \<^verbatim>\<open>'error'\<close> listener on the server (\<^verbatim>\<open>on\<close> adds, it does not
  replace) and one more one-time \<^verbatim>\<open>'listening'\<close> callback (\<^verbatim>\<open>listen(port, cb)\<close> is
  \<^verbatim>\<open>once('listening', cb)\<close>). The listeners differ only in the \<^verbatim>\<open>port\<close> they captured, so
  the server's state is the list of those ports in the order of registration, and the port
  its handle is bound to, if any. The process holds the server, the queue of events still
  to be emitted, what it has done so far, and whether it still runs.

  The rules of Node.js used:
  \<^item> \<^verbatim>\<open>listen\<close> throws \<^verbatim>\<open>ERR_SERVER_ALREADY_LISTEN\<close> when the server has a handle; nothing
    catches it here, which ends the process (with exit status 1);
  \<^item> otherwise \<^verbatim>\<open>listen\<close> tries to bind at once, and the outcome is emitted later, from
    the queue of \<^verbatim>\<open>process.nextTick\<close>, first in first out: \<^verbatim>\<open>'listening'\<close>, or \<^verbatim>\<open>'error'\<close>
    after the handle has been dropped;
  \<^item> \<^verbatim>\<open>emit\<close> calls the listeners registered at that moment, in the order of registration;
    a listener that throws or calls \<^verbatim>\<open>process.exit\<close> ends the emission;
  \<^item> an \<^verbatim>\<open>'error'\<close> event without a listener is thrown.
\<close>

datatype tick = EmitError string | EmitListening

datatype status = Running | Exited nat | Thrown string

record node =
  errorListeners :: "nat list"
  listeningCallbacks :: "nat list"
  handle :: "nat option"
  nextTicks :: "tick list"
  events :: "event list"
  status :: status

definition startHttpServerWithFallback :: "platform \<Rightarrow> nat \<Rightarrow> node \<Rightarrow> node" where
  "startHttpServerWithFallback pf port st =
     (if handle st \<noteq> None then
        st\<lparr>events := events st @ [Uncaught ''ERR_SERVER_ALREADY_LISTEN''],
           status := Thrown ''ERR_SERVER_ALREADY_LISTEN''\<rparr>
      else
        (let st1 = st\<lparr>listeningCallbacks := listeningCallbacks st @ [port],
                      events := events st @ [Listen Fallback port]\<rparr>;
             st2 = (case pf Fallback port of
                      Listening \<Rightarrow>
                        st1\<lparr>handle := Some port, nextTicks := nextTicks st1 @ [EmitListening]\<rparr>
                    | Error code \<Rightarrow>
                        st1\<lparr>nextTicks := nextTicks st1 @ [EmitError code]\<rparr>)
         in st2\<lparr>errorListeners := errorListeners st2 @ [port]\<rparr>))"

text \<open>The \<^verbatim>\<open>'error'\<close> listener that captured \<open>port\<close>, called with an error of the given code.\<close>

definition onError :: "platform \<Rightarrow> nat \<Rightarrow> string \<Rightarrow> node \<Rightarrow> node" where
  "onError pf port code st =
     (if code = ''EADDRINUSE'' \<and> port < MAX_PORT then
        startHttpServerWithFallback pf (port + 1)
          (st\<lparr>events := events st @
             [ConsoleLog (''Port '' @ toString port @ '' is in use, trying port '' @
                          toString (port + 1) @ ''...'')]\<rparr>)
      else
        st\<lparr>events := events st @
             [ConsoleError ''Fatal error: Unable to start server on any available port'',
              ProcessExit 1],
           status := Exited 1\<rparr>)"

fun emitError :: "platform \<Rightarrow> string \<Rightarrow> nat list \<Rightarrow> node \<Rightarrow> node" where
  "emitError pf code [] st = st"
| "emitError pf code (port # ports) st =
     (let st' = onError pf port code st
      in if status st' = Running then emitError pf code ports st' else st')"

definition emitListening :: "node \<Rightarrow> node" where
  "emitListening st =
     st\<lparr>events := events st @
          concat (map (listeningLogs ''HTTP fallback server'') (listeningCallbacks st)),
        listeningCallbacks := []\<rparr>"

definition dispatch :: "platform \<Rightarrow> tick \<Rightarrow> node \<Rightarrow> node" where
  "dispatch pf t st =
     (case t of
        EmitError code \<Rightarrow>
          (if errorListeners st = [] then
             st\<lparr>events := events st @ [Uncaught code], status := Thrown code\<rparr>
           else emitError pf code (errorListeners st) st)
      | EmitListening \<Rightarrow> emitListening st)"

text \<open>
  The event loop: as long as the process runs and an event is queued, emit the first.
  \<open>steps n\<close> emits at most \<open>n\<close> events; the process is settled when it has ended or nothing
  is queued, and \<open>runTicks\<close> is \<open>None\<close> when \<open>fuel\<close> events did not settle it.
\<close>

fun steps :: "nat \<Rightarrow> platform \<Rightarrow> node \<Rightarrow> node" where
  "steps 0 pf st = st"
| "steps (Suc n) pf st =
     (if status st \<noteq> Running then st
      else case nextTicks st of
             [] \<Rightarrow> st
           | t # ts \<Rightarrow> steps n pf (dispatch pf t (st\<lparr>nextTicks := ts\<rparr>)))"

definition settled :: "node \<Rightarrow> bool" where
  "settled st = (status st \<noteq> Running \<or> nextTicks st = [])"

definition runTicks :: "nat \<Rightarrow> platform \<Rightarrow> node \<Rightarrow> node option" where
  "runTicks fuel pf st = (let st' = steps fuel pf st in if settled st' then Some st' else None)"

definition startHttpFallback :: "platform \<Rightarrow> node" where
  "startHttpFallback pf =
     startHttpServerWithFallback pf DEFAULT_PORT
       \<lparr>errorListeners = [], listeningCallbacks = [], handle = None, nextTicks = [],
        events = [ConsoleLog ''Initializing native HTTP server fallback...''],
        status = Running\<rparr>"

subsection \<open>The whole run\<close>

text \<open>
  \<^verbatim>\<open>
  console.log('Starting Express.js web server...');
  startServer();
  \<close>
  A run ends with a server bound under a strategy at a port, with an exit status, or with
  an uncaught exception. A process that runs on with nothing queued and nothing bound
  would leave with status 0.
\<close>

datatype ending = Serving strategy nat | Exit nat | Crash string

definition ending_of :: "node \<Rightarrow> ending" where
  "ending_of st =
     (case status st of
        Exited c \<Rightarrow> Exit c
      | Thrown e \<Rightarrow> Crash e
      | Running \<Rightarrow> (case handle st of Some p \<Rightarrow> Serving Fallback p | None \<Rightarrow> Exit 0))"

text \<open>What has happened once the fallback phase, if it is reached, has emitted \<open>n\<close> events.\<close>

definition trace :: "platform \<Rightarrow> nat \<Rightarrow> event list" where
  "trace pf n =
     (let (evs, h) = startServer pf DEFAULT_PORT 0
      in ConsoleLog ''Starting Express.js web server...'' # evs @
         (case h of
            Served p \<Rightarrow> []
          | ToFallback \<Rightarrow> events (steps n pf (startHttpFallback pf))))"

definition main :: "platform \<Rightarrow> nat \<Rightarrow> (event list \<times> ending) option" where
  "main pf fuel =
     (let (evs, h) = startServer pf DEFAULT_PORT 0
      in case h of
           Served p \<Rightarrow> Some (trace pf fuel, Serving Primary p)
         | ToFallback \<Rightarrow>
             (case runTicks fuel pf (startHttpFallback pf) of
                None \<Rightarrow> None
              | Some st \<Rightarrow> Some (trace pf fuel, ending_of st)))"

text \<open>Readings of a trace: the bind attempts and the timers, in order.\<close>

fun listens :: "event list \<Rightarrow> (strategy \<times> nat) list" where
  "listens [] = []"
| "listens (Listen s p # es) = (s, p) # listens es"
| "listens (e # es) = listens es"

fun delays :: "event list \<Rightarrow> nat list" where
  "delays [] = []"
| "delays (SetTimeout d # es) = d # delays es"
| "delays (e # es) = delays es"

text \<open>Platforms to run the model on: every port in use; the ports of a list in use.\<close>

definition allInUse :: platform where
  "allInUse s p = Error ''EADDRINUSE''"

definition inUse :: "nat list \<Rightarrow> platform" where
  "inUse ports s p = (if p \<in> set ports then Error ''EADDRINUSE'' else Listening)"

text \<open>
  What the fallback phase may add to a trace: bind attempts under Fallback at ports of the
  range, console lines, the exit and the exception, but no timer. A process state extends
  another when its trace is the other's followed by such events.
\<close>

definition fallbackEvent :: "event \<Rightarrow> bool" where
  "fallbackEvent e =
     (case e of
        Listen s p \<Rightarrow> s = Fallback \<and> DEFAULT_PORT \<le> p \<and> p \<le> MAX_PORT
      | SetTimeout d \<Rightarrow> False
      | _ \<Rightarrow> True)"

definition extends :: "node \<Rightarrow> node \<Rightarrow> bool" where
  "extends st st' = (\<exists>post. events st' = events st @ post \<and> list_all fallbackEvent post)"

definition listenersInRange :: "node \<Rightarrow> bool" where
  "listenersInRange st = list_all (\<lambda>p. DEFAULT_PORT \<le> p \<and> p \<le> MAX_PORT) (errorListeners st)"

text \<open>What the \<^verbatim>\<open>else\<close> branch of the Fallback \<^verbatim>\<open>'error'\<close> listener does.\<close>

definition fatalEvents :: "event list" where
  "fatalEvents =
     [ConsoleError ''Fatal error: Unable to start server on any available port'', ProcessExit 1]"

text \<open>
  A word occurs in a message; a message identifies the port range when the decimal forms
  of both of its ends occur in it.
\<close>

fun mentions :: "string \<Rightarrow> string \<Rightarrow> bool" where
  "mentions w [] = (w = [])"
| "mentions w (c # cs) = (take (length w) (c # cs) = w \<or> mentions w cs)"

definition identifiesRange :: "string \<Rightarrow> bool" where
  "identifiesRange msg = (mentions (toString DEFAULT_PORT) msg \<and> mentions (toString MAX_PORT) msg)"

text \<open>
  Every port of the range is in use under Fallback. While that sweep goes on the process
  runs with no handle, its listeners hold ports up to that of the last one registered,
  and every queued event is a port conflict.
\<close>

definition allConflicts :: "platform \<Rightarrow> bool" where
  "allConflicts pf =
     list_all (\<lambda>q. pf Fallback q = Error ''EADDRINUSE'') [DEFAULT_PORT..<Suc MAX_PORT]"

definition conflictState :: "nat \<Rightarrow> node \<Rightarrow> bool" where
  "conflictState m st =
     (status st = Running \<and> handle st = None \<and> errorListeners st \<noteq> [] \<and>
      last (errorListeners st) = m \<and>
      list_all (\<lambda>p. DEFAULT_PORT \<le> p \<and> p \<le> m) (errorListeners st) \<and>
      nextTicks st \<noteq> [] \<and> list_all (\<lambda>t. t = EmitError ''EADDRINUSE'') (nextTicks st))"

text \<open>
  A bound on the events still to be emitted. A state is well formed when a listener is
  registered, the last registered one holds a port of the range, and a \<^verbatim>\<open>'listening'\<close>
  event is queued only if the server has a handle.
\<close>

definition listeningTicks :: "node \<Rightarrow> nat" where
  "listeningTicks st = length (filter (\<lambda>t. t = EmitListening) (nextTicks st))"

definition fuelBound :: "node \<Rightarrow> nat" where
  "fuelBound st =
     (if handle st = None then MAX_PORT - last (errorListeners st) + 2 else listeningTicks st + 1)"

definition wellFormed :: "node \<Rightarrow> bool" where
  "wellFormed st =
     (errorListeners st \<noteq> [] \<and> last (errorListeners st) \<le> MAX_PORT \<and>
      (handle st = None \<longrightarrow> listeningTicks st = 0))"

text \<open>
  A bind attempt at \<open>q\<close> is answered by the queue when it succeeded, failed with a port
  conflict, or its error is still queued. While the process runs, every failure that is
  not a port conflict is still queued; and if it has exited, then with status 1.
\<close>

definition answered :: "platform \<Rightarrow> tick list \<Rightarrow> nat \<Rightarrow> bool" where
  "answered pf ticks q =
     (case pf Fallback q of
        Listening \<Rightarrow> True
      | Error code \<Rightarrow> code = ''EADDRINUSE'' \<or> EmitError code \<in> set ticks)"

definition fatalPending :: "platform \<Rightarrow> node \<Rightarrow> bool" where
  "fatalPending pf st =
     ((status st = Running \<longrightarrow>
        list_all (\<lambda>a. answered pf (nextTicks st) (snd a)) (listens (events st))) \<and>
      (case status st of Exited c \<Rightarrow> c = 1 | _ \<Rightarrow> True))"

text \<open>
  More platforms: every bind fails with \<^verbatim>\<open>EACCES\<close>; every port is in use under Primary
  and the ports of a list are in use under Fallback.
\<close>

definition noAccess :: platform where
  "noAccess s p = Error ''EACCES''"

definition primaryExhausted :: "nat list \<Rightarrow> platform" where
  "primaryExhausted ports s p =
     (case s of Primary \<Rightarrow> Error ''EADDRINUSE'' | Fallback \<Rightarrow> inUse ports Fallback p)"

section \<open>Properties of the Request Responder\<close>

lemma route_root_exact: "route_matches ''/'' (pathname ''/'')"
  by (simp add: route_matches_def pathname_def toLowerCase_def toLowerCase_char_def)

lemma route_good_evening_exact: "route_matches ''/good-evening'' (pathname ''/good-evening'')"
  by (simp add: route_matches_def pathname_def toLowerCase_def toLowerCase_char_def)

lemma route_root_not_good_evening: "\<not> route_matches ''/'' (pathname ''/good-evening'')"
  by (simp add: route_matches_def pathname_def toLowerCase_def toLowerCase_char_def)

lemma serve_append:
  "serve s console (xs @ ys) =
     (let (c1, rs1) = serve s console xs; (c2, rs2) = serve s c1 ys in (c2, rs1 @ rs2))"
  by (induction xs arbitrary: console) (auto split: prod.splits)

lemma handle_request_response: "snd (handle_request s console (t, req)) = respond s req"
  by (cases s) (simp_all add: handle_request_def respond_def)

lemma serve_last_response:
  "snd (serve s console (prior @ [(t, req)])) = snd (serve s console prior) @ [respond s req]"
proof -
  obtain c1 rs1 where p: "serve s console prior = (c1, rs1)"
    by (cases "serve s console prior")
  obtain c2 r where h: "handle_request s c1 (t, req) = (c2, r)"
    by (cases "handle_request s c1 (t, req)")
  from h have "r = respond s req"
    using handle_request_response [of s c1 t req] by simp
  with p h show ?thesis
    by (simp add: serve_append)
qed

subsection \<open>Matched routes\<close>

lemma app_root: "app \<lparr>req_method = ''GET'', req_url = ''/''\<rparr> =
    \<lparr>statusCode = 200, contentType = ''text/html; charset=utf-8'', body = ''Hello World!''\<rparr>"
  using route_root_exact by (simp add: app_def get_route_handles_def res_send_def)

lemma app_good_evening: "app \<lparr>req_method = ''GET'', req_url = ''/good-evening''\<rparr> =
    \<lparr>statusCode = 200, contentType = ''text/html; charset=utf-8'', body = ''Good evening''\<rparr>"
  using route_good_evening_exact route_root_not_good_evening
  by (simp add: app_def get_route_handles_def res_send_def)

lemma respond_root:
  "statusCode (respond s \<lparr>req_method = ''GET'', req_url = ''/''\<rparr>) = 200 \<and>
   body (respond s \<lparr>req_method = ''GET'', req_url = ''/''\<rparr>) = ''Hello World!''"
  by (cases s) (simp_all add: respond_def app_root httpFallbackListener_def)

lemma respond_good_evening:
  "statusCode (respond s \<lparr>req_method = ''GET'', req_url = ''/good-evening''\<rparr>) = 200 \<and>
   body (respond s \<lparr>req_method = ''GET'', req_url = ''/good-evening''\<rparr>) = ''Good evening''"
  by (cases s) (simp_all add: respond_def app_good_evening httpFallbackListener_def)

text \<open>
  A \<^verbatim>\<open>GET\<close> request whose URL is exactly \<^verbatim>\<open>/\<close> is answered with status 200 and body
  \<^verbatim>\<open>Hello World!\<close>, and one whose URL is exactly \<^verbatim>\<open>/good-evening\<close> with status 200 and
  body \<^verbatim>\<open>Good evening\<close>, under either strategy, whatever requests the server has answered
  before and whatever is on the console: the answer to the last request of any sequence is
  the same as the answer to that request alone.
\<close>

theorem matched_routes_any_history:
  "statusCode (last (snd (serve s console (prior @ [(t, \<lparr>req_method = ''GET'', req_url = ''/''\<rparr>)])))) = 200 \<and>
   body (last (snd (serve s console (prior @ [(t, \<lparr>req_method = ''GET'', req_url = ''/''\<rparr>)])))) = ''Hello World!'' \<and>
   statusCode (last (snd (serve s console (prior @ [(t, \<lparr>req_method = ''GET'', req_url = ''/good-evening''\<rparr>)])))) = 200 \<and>
   body (last (snd (serve s console (prior @ [(t, \<lparr>req_method = ''GET'', req_url = ''/good-evening''\<rparr>)])))) = ''Good evening'' \<and>
   statusCode (respond s \<lparr>req_method = ''GET'', req_url = ''/''\<rparr>) = 200 \<and>
   body (respond s \<lparr>req_method = ''GET'', req_url = ''/''\<rparr>) = ''Hello World!'' \<and>
   statusCode (respond s \<lparr>req_method = ''GET'', req_url = ''/good-evening''\<rparr>) = 200 \<and>
   body (respond s \<lparr>req_method = ''GET'', req_url = ''/good-evening''\<rparr>) = ''Good evening''"
  by (simp add: serve_last_response respond_root respond_good_evening)

subsection \<open>The Fallback listener compares the whole URL\<close>

text \<open>
  C10. Under the Fallback strategy a \<^verbatim>\<open>GET\<close> request whose URL is not, character for
  character, \<^verbatim>\<open>/\<close> or \<^verbatim>\<open>/good-evening\<close> is answered with status 404 and body \<^verbatim>\<open>Not Found\<close>;
  so are \<^verbatim>\<open>/?x=1\<close>, \<^verbatim>\<open>/good-evening/\<close> and \<^verbatim>\<open>/good-evening?x=1\<close>.
\<close>

theorem fallback_matches_whole_url:
  assumes "req_url req \<noteq> ''/''" and "req_url req \<noteq> ''/good-evening''"
  shows "statusCode (respond Fallback req) = 404 \<and> body (respond Fallback req) = ''Not Found''"
  using assms by (simp add: respond_def httpFallbackListener_def)

theorem fallback_matches_whole_url_witness:
  "statusCode (respond Fallback \<lparr>req_method = ''GET'', req_url = ''/?x=1''\<rparr>) = 404 \<and>
   body (respond Fallback \<lparr>req_method = ''GET'', req_url = ''/?x=1''\<rparr>) = ''Not Found'' \<and>
   statusCode (respond Fallback \<lparr>req_method = ''GET'', req_url = ''/good-evening/''\<rparr>) = 404 \<and>
   body (respond Fallback \<lparr>req_method = ''GET'', req_url = ''/good-evening/''\<rparr>) = ''Not Found'' \<and>
   statusCode (respond Fallback \<lparr>req_method = ''GET'', req_url = ''/good-evening?x=1''\<rparr>) = 404 \<and>
   body (respond Fallback \<lparr>req_method = ''GET'', req_url = ''/good-evening?x=1''\<rparr>) = ''Not Found''"
  using fallback_matches_whole_url [of "\<lparr>req_method = ''GET'', req_url = ''/?x=1''\<rparr>"]
    fallback_matches_whole_url [of "\<lparr>req_method = ''GET'', req_url = ''/good-evening/''\<rparr>"]
    fallback_matches_whole_url [of "\<lparr>req_method = ''GET'', req_url = ''/good-evening?x=1''\<rparr>"]
  by simp

subsection \<open>Where the two strategies answer differently\<close>

lemma fallback_content_type: "contentType (respond Fallback req) = ''text/plain''"
  by (simp add: respond_def httpFallbackListener_def)

lemma primary_content_type: "contentType (respond Primary req) = ''text/html; charset=utf-8''"
  by (simp add: respond_def app_def res_send_def finalhandler_def)

text \<open>
  C1. The claim is that every request gets the same status and body under both strategies,
  status 404 and body \<^verbatim>\<open>Not Found\<close> when it is for neither route. The code answers
  \<^verbatim>\<open>GET /?x=1\<close> with 200 and \<^verbatim>\<open>Hello World!\<close> under Primary, where the route is matched
  against the path, and with 404 and \<^verbatim>\<open>Not Found\<close> under Fallback, where the whole URL is
  compared; and it answers \<^verbatim>\<open>GET /nope\<close> with 404 under both, with Express's page
  \<^verbatim>\<open>Cannot GET /nope\<close> as the body under Primary, no handler for unmatched requests being
  registered there, and with \<^verbatim>\<open>Not Found\<close> under Fallback.
\<close>

theorem strategies_answer_differently:
  "respond Primary \<lparr>req_method = ''GET'', req_url = ''/?x=1''\<rparr> =
     \<lparr>statusCode = 200, contentType = ''text/html; charset=utf-8'', body = ''Hello World!''\<rparr> \<and>
   respond Fallback \<lparr>req_method = ''GET'', req_url = ''/?x=1''\<rparr> =
     \<lparr>statusCode = 404, contentType = ''text/plain'', body = ''Not Found''\<rparr> \<and>
   statusCode (respond Primary \<lparr>req_method = ''GET'', req_url = ''/nope''\<rparr>) = 404 \<and>
   body (respond Primary \<lparr>req_method = ''GET'', req_url = ''/nope''\<rparr>) = htmlDocument ''Cannot GET /nope'' \<and>
   body (respond Primary \<lparr>req_method = ''GET'', req_url = ''/nope''\<rparr>) \<noteq> ''Not Found'' \<and>
   respond Fallback \<lparr>req_method = ''GET'', req_url = ''/nope''\<rparr> =
     \<lparr>statusCode = 404, contentType = ''text/plain'', body = ''Not Found''\<rparr>"
  by (simp add: respond_def httpFallbackListener_def app_def get_route_handles_def res_send_def
      finalhandler_def route_matches_def pathname_def toLowerCase_def toLowerCase_char_def
      htmlDocument_def)

lemma primary_serves_path:
  assumes "req_method req = ''GET''"
  shows "pathname (req_url req) = ''/'' \<longrightarrow>
           respond Primary req =
             \<lparr>statusCode = 200, contentType = ''text/html; charset=utf-8'', body = ''Hello World!''\<rparr>"
    and "pathname (req_url req) = ''/good-evening'' \<longrightarrow>
           respond Primary req =
             \<lparr>statusCode = 200, contentType = ''text/html; charset=utf-8'', body = ''Good evening''\<rparr>"
  using assms
  by (simp_all add: respond_def app_def get_route_handles_def res_send_def route_matches_def
      toLowerCase_def toLowerCase_char_def)

text \<open>
  C6. The claim is that every \<^verbatim>\<open>GET\<close> request for the path \<^verbatim>\<open>/\<close> is answered with status
  200 and body \<^verbatim>\<open>Hello World!\<close>, and every one for the path \<^verbatim>\<open>/good-evening\<close> with status
  200 and body \<^verbatim>\<open>Good evening\<close>, under either strategy. The URL \<^verbatim>\<open>/?x=1\<close> has the path
  \<^verbatim>\<open>/\<close>, and \<^verbatim>\<open>/good-evening?x=1\<close> the path \<^verbatim>\<open>/good-evening\<close>. Under Primary both are
  answered as claimed; under Fallback, where the listener compares the whole URL, both are
  answered with status 404 and body \<^verbatim>\<open>Not Found\<close>, also as the only request of a server.
\<close>

theorem fallback_rejects_route_with_query:
  "pathname ''/?x=1'' = ''/'' \<and>
   respond Primary \<lparr>req_method = ''GET'', req_url = ''/?x=1''\<rparr> =
     \<lparr>statusCode = 200, contentType = ''text/html; charset=utf-8'', body = ''Hello World!''\<rparr> \<and>
   respond Fallback \<lparr>req_method = ''GET'', req_url = ''/?x=1''\<rparr> =
     \<lparr>statusCode = 404, contentType = ''text/plain'', body = ''Not Found''\<rparr> \<and>
   pathname ''/good-evening?x=1'' = ''/good-evening'' \<and>
   respond Primary \<lparr>req_method = ''GET'', req_url = ''/good-evening?x=1''\<rparr> =
     \<lparr>statusCode = 200, contentType = ''text/html; charset=utf-8'', body = ''Good evening''\<rparr> \<and>
   respond Fallback \<lparr>req_method = ''GET'', req_url = ''/good-evening?x=1''\<rparr> =
     \<lparr>statusCode = 404, contentType = ''text/plain'', body = ''Not Found''\<rparr> \<and>
   snd (serve Fallback [] [(t, \<lparr>req_method = ''GET'', req_url = ''/?x=1''\<rparr>)]) =
     [\<lparr>statusCode = 404, contentType = ''text/plain'', body = ''Not Found''\<rparr>]"
  by (simp add: respond_def httpFallbackListener_def app_def get_route_handles_def res_send_def
      route_matches_def pathname_def toLowerCase_def toLowerCase_char_def handle_request_def)

text \<open>
  C7. The claim is that every response is served as plain text under both strategies. The
  Fallback listener sets \<^verbatim>\<open>Content-Type: text/plain\<close> in each of its three branches. The
  Primary handlers call \<^verbatim>\<open>res.send\<close> with a string and set no content type, so Express
  serves \<^verbatim>\<open>text/html; charset=utf-8\<close>, for \<^verbatim>\<open>GET /\<close> as for every other request.
\<close>

theorem primary_is_not_plain_text:
  "contentType (respond Primary \<lparr>req_method = ''GET'', req_url = ''/''\<rparr>) = ''text/html; charset=utf-8'' \<and>
   contentType (respond Primary \<lparr>req_method = ''GET'', req_url = ''/''\<rparr>) \<noteq> ''text/plain'' \<and>
   contentType (respond Fallback \<lparr>req_method = ''GET'', req_url = ''/''\<rparr>) = ''text/plain''"
  by (simp add: fallback_content_type primary_content_type)

section \<open>Properties of the Listener Acquisition Controller\<close>

subsection \<open>The Primary sweep\<close>

lemma delays_append: "delays (xs @ ys) = delays xs @ delays ys"
  by (induction xs rule: delays.induct) auto

lemma listens_append: "listens (xs @ ys) = listens xs @ listens ys"
  by (induction xs rule: listens.induct) auto

lemma delays_listeningLogs: "delays (listeningLogs who p) = []"
  by (simp add: listeningLogs_def)

lemma listens_listeningLogs: "listens (listeningLogs who p) = []"
  by (simp add: listeningLogs_def)

lemma startServer_free:
  assumes "pf Primary port = Listening"
  shows "startServer pf port rc = (Listen Primary port # listeningLogs ''Express.js server'' port, Served port)"
  using assms by (simp add: startServer.simps)

lemma startServer_conflict:
  assumes "pf Primary port = Error ''EADDRINUSE''" and "port < MAX_PORT"
  shows "startServer pf port rc =
     ([Listen Primary port,
       ConsoleLog (''Port '' @ toString port @ '' is in use, attempting next port...''),
       SetTimeout (RETRY_DELAY * 2 ^ rc)] @ fst (startServer pf (Suc port) (Suc rc)),
      snd (startServer pf (Suc port) (Suc rc)))"
  using assms by (subst startServer.simps) (simp add: split_beta)

lemma startServer_sweep:
  assumes "p \<le> MAX_PORT" and "port \<le> p"
    and "\<forall>q. port \<le> q \<and> q < p \<longrightarrow> pf Primary q = Error ''EADDRINUSE''"
    and "pf Primary p = Listening"
  shows "snd (startServer pf port rc) = Served p \<and>
         delays (fst (startServer pf port rc)) = map (\<lambda>i. RETRY_DELAY * 2 ^ i) [rc..<rc + (p - port)] \<and>
         listens (fst (startServer pf port rc)) = map (Pair Primary) [port..<Suc p]"
  using assms
proof (induction "p - port" arbitrary: port rc)
  case 0
  then have "port = p" by simp
  with 0 show ?case
    by (simp add: startServer_free delays_listeningLogs listens_listeningLogs)
next
  case (Suc d)
  then have lt: "port < p" and busy: "pf Primary port = Error ''EADDRINUSE''"
    by auto
  from lt Suc.prems have ltm: "port < MAX_PORT" by simp
  have ih: "snd (startServer pf (Suc port) (Suc rc)) = Served p \<and>
         delays (fst (startServer pf (Suc port) (Suc rc))) =
           map (\<lambda>i. RETRY_DELAY * 2 ^ i) [Suc rc..<Suc rc + (p - Suc port)] \<and>
         listens (fst (startServer pf (Suc port) (Suc rc))) = map (Pair Primary) [Suc port..<Suc p]"
    using Suc.hyps(1) [of "Suc port" "Suc rc"] Suc.hyps(2) Suc.prems lt by auto
  have e: "Suc rc + (p - Suc port) = rc + (p - port)"
    using lt by simp
  have "rc < rc + (p - port)"
    using lt by simp
  then have "[rc..<rc + (p - port)] = rc # [Suc rc..<rc + (p - port)]"
    by (rule upt_conv_Cons)
  then have idx: "[rc..<rc + (p - port)] = rc # [Suc rc..<Suc rc + (p - Suc port)]"
    unfolding e by simp
  have "port < Suc p"
    using lt by simp
  then have "[port..<Suc p] = port # [Suc port..<Suc p]"
    by (rule upt_conv_Cons)
  then have idx2: "[port..<Suc p] = port # [Suc port..<Suc p]"
    by simp
  have unfold: "startServer pf port rc =
     ([Listen Primary port,
       ConsoleLog (''Port '' @ toString port @ '' is in use, attempting next port...''),
       SetTimeout (RETRY_DELAY * 2 ^ rc)] @ fst (startServer pf (Suc port) (Suc rc)),
      snd (startServer pf (Suc port) (Suc rc)))"
    using busy ltm by (rule startServer_conflict)
  show ?case
    unfolding unfold using ih by (simp add: idx idx2 del: upt_Suc upt.simps)
qed

lemma toString_ports:
  "toString 3000 = ''3000''" "toString 3001 = ''3001''" "toString 3002 = ''3002''" "toString 3010 = ''3010''"
  by (simp_all add: toString.simps digit_def)

lemma trace_unfold:
  "trace pf n = ConsoleLog ''Starting Express.js web server...'' # fst (startServer pf DEFAULT_PORT 0) @
     (case snd (startServer pf DEFAULT_PORT 0) of
        Served p \<Rightarrow> []
      | ToFallback \<Rightarrow> events (steps n pf (startHttpFallback pf)))"
  by (simp add: trace_def split_beta)

lemma main_served:
  "snd (startServer pf DEFAULT_PORT 0) = Served p \<Longrightarrow> main pf fuel = Some (trace pf fuel, Serving Primary p)"
  by (simp add: main_def split_beta)

lemma startServer_exhausted:
  assumes "port \<le> MAX_PORT"
    and "\<forall>q. port \<le> q \<and> q \<le> MAX_PORT \<longrightarrow> pf Primary q = Error ''EADDRINUSE''"
  shows "snd (startServer pf port rc) = ToFallback \<and>
         (\<exists>pre. fst (startServer pf port rc) =
            pre @ [Listen Primary MAX_PORT,
                   ConsoleLog ''Port 3010 is in use, attempting next port...'',
                   ConsoleError ''All ports from 3000 to 3010 are in use.'',
                   ConsoleLog ''Attempting fallback to native HTTP server...''] \<and>
            listens pre = map (Pair Primary) [port..<MAX_PORT] \<and>
            delays pre = map (\<lambda>i. RETRY_DELAY * 2 ^ i) [rc..<rc + (MAX_PORT - port)])"
  using assms
proof (induction "MAX_PORT - port" arbitrary: port rc)
  case 0
  then have eq: "port = MAX_PORT" and busy: "pf Primary MAX_PORT = Error ''EADDRINUSE''"
    by auto
  have "startServer pf MAX_PORT rc =
     ([Listen Primary MAX_PORT,
       ConsoleLog ''Port 3010 is in use, attempting next port...'',
       ConsoleError ''All ports from 3000 to 3010 are in use.'',
       ConsoleLog ''Attempting fallback to native HTTP server...''], ToFallback)"
    using busy by (subst startServer.simps) (simp add: toString_ports MAX_PORT_def DEFAULT_PORT_def)
  with eq show ?case by simp
next
  case (Suc d)
  then have lt: "port < MAX_PORT" and busy: "pf Primary port = Error ''EADDRINUSE''"
    by auto
  have "snd (startServer pf (Suc port) (Suc rc)) = ToFallback \<and>
         (\<exists>pre. fst (startServer pf (Suc port) (Suc rc)) =
            pre @ [Listen Primary MAX_PORT,
                   ConsoleLog ''Port 3010 is in use, attempting next port...'',
                   ConsoleError ''All ports from 3000 to 3010 are in use.'',
                   ConsoleLog ''Attempting fallback to native HTTP server...''] \<and>
            listens pre = map (Pair Primary) [Suc port..<MAX_PORT] \<and>
            delays pre = map (\<lambda>i. RETRY_DELAY * 2 ^ i) [Suc rc..<Suc rc + (MAX_PORT - Suc port)])"
    using Suc.hyps(1) [of "Suc port" "Suc rc"] Suc.hyps(2) Suc.prems lt by auto
  then obtain pre where h: "snd (startServer pf (Suc port) (Suc rc)) = ToFallback"
    and f: "fst (startServer pf (Suc port) (Suc rc)) =
            pre @ [Listen Primary MAX_PORT,
                   ConsoleLog ''Port 3010 is in use, attempting next port...'',
                   ConsoleError ''All ports from 3000 to 3010 are in use.'',
                   ConsoleLog ''Attempting fallback to native HTTP server...'']"
    and l: "listens pre = map (Pair Primary) [Suc port..<MAX_PORT]"
    and d: "delays pre = map (\<lambda>i. RETRY_DELAY * 2 ^ i) [Suc rc..<Suc rc + (MAX_PORT - Suc port)]"
    by blast
  have e: "Suc rc + (MAX_PORT - Suc port) = rc + (MAX_PORT - port)"
    using lt by simp
  have "rc < rc + (MAX_PORT - port)"
    using lt by simp
  then have "[rc..<rc + (MAX_PORT - port)] = rc # [Suc rc..<rc + (MAX_PORT - port)]"
    by (rule upt_conv_Cons)
  then have idx: "[rc..<rc + (MAX_PORT - port)] = rc # [Suc rc..<Suc rc + (MAX_PORT - Suc port)]"
    unfolding e by simp
  have "[port..<MAX_PORT] = port # [Suc port..<MAX_PORT]"
    using lt by (rule upt_conv_Cons)
  then have idx2: "[port..<MAX_PORT] = port # [Suc port..<MAX_PORT]"
    by simp
  have unfold: "startServer pf port rc =
     ([Listen Primary port,
       ConsoleLog (''Port '' @ toString port @ '' is in use, attempting next port...''),
       SetTimeout (RETRY_DELAY * 2 ^ rc)] @ fst (startServer pf (Suc port) (Suc rc)),
      snd (startServer pf (Suc port) (Suc rc)))"
    using busy lt by (rule startServer_conflict)
  let ?pre = "[Listen Primary port,
       ConsoleLog (''Port '' @ toString port @ '' is in use, attempting next port...''),
       SetTimeout (RETRY_DELAY * 2 ^ rc)] @ pre"
  have "fst (startServer pf port rc) =
            ?pre @ [Listen Primary MAX_PORT,
                   ConsoleLog ''Port 3010 is in use, attempting next port...'',
                   ConsoleError ''All ports from 3000 to 3010 are in use.'',
                   ConsoleLog ''Attempting fallback to native HTTP server...'']"
    unfolding unfold by (simp add: f)
  moreover have "listens ?pre = map (Pair Primary) [port..<MAX_PORT]"
    unfolding idx2 by (simp add: l)
  moreover have "delays ?pre = map (\<lambda>i. RETRY_DELAY * 2 ^ i) [rc..<rc + (MAX_PORT - port)]"
    unfolding idx by (simp add: d)
  moreover have "snd (startServer pf port rc) = ToFallback"
    unfolding unfold by (simp add: h)
  ultimately show ?case by blast
qed

lemma startServer_listens:
  assumes "DEFAULT_PORT \<le> port" and "port \<le> MAX_PORT"
  shows "\<exists>ps. listens (fst (startServer pf port rc)) = map (Pair Primary) (port # ps) \<and>
              list_all (\<lambda>p. DEFAULT_PORT \<le> p \<and> p \<le> MAX_PORT) ps \<and>
              delays (fst (startServer pf port rc)) = map (\<lambda>i. RETRY_DELAY * 2 ^ i) [rc..<rc + length ps]"
  using assms
proof (induction "MAX_PORT - port" arbitrary: port rc)
  case 0
  then have "listens (fst (startServer pf port rc)) = map (Pair Primary) [port] \<and>
     delays (fst (startServer pf port rc)) = []"
    by (subst (1 2) startServer.simps)
       (simp add: listens_listeningLogs delays_listeningLogs split: listen_result.splits)
  then show ?case
    by (intro exI [of _ "[]"]) simp
next
  case (Suc d)
  then have lt: "port < MAX_PORT" by simp
  show ?case
  proof (cases "pf Primary port = Error ''EADDRINUSE''")
    case True
    have "\<exists>ps. listens (fst (startServer pf (Suc port) (Suc rc))) = map (Pair Primary) (Suc port # ps) \<and>
              list_all (\<lambda>p. DEFAULT_PORT \<le> p \<and> p \<le> MAX_PORT) ps \<and>
              delays (fst (startServer pf (Suc port) (Suc rc))) =
                map (\<lambda>i. RETRY_DELAY * 2 ^ i) [Suc rc..<Suc rc + length ps]"
      using Suc.hyps(1) [of "Suc port" "Suc rc"] Suc.hyps(2) Suc.prems lt by auto
    then obtain ps
      where l: "listens (fst (startServer pf (Suc port) (Suc rc))) = map (Pair Primary) (Suc port # ps)"
      and r: "list_all (\<lambda>p. DEFAULT_PORT \<le> p \<and> p \<le> MAX_PORT) ps"
      and d: "delays (fst (startServer pf (Suc port) (Suc rc))) =
                map (\<lambda>i. RETRY_DELAY * 2 ^ i) [Suc rc..<Suc rc + length ps]"
      by blast
    have unfold: "startServer pf port rc =
       ([Listen Primary port,
         ConsoleLog (''Port '' @ toString port @ '' is in use, attempting next port...''),
         SetTimeout (RETRY_DELAY * 2 ^ rc)] @ fst (startServer pf (Suc port) (Suc rc)),
        snd (startServer pf (Suc port) (Suc rc)))"
      using True lt by (rule startServer_conflict)
    have "rc < rc + length (Suc port # ps)"
      by simp
    then have "[rc..<rc + length (Suc port # ps)] = rc # [Suc rc..<rc + length (Suc port # ps)]"
      by (rule upt_conv_Cons)
    then have idx: "[rc..<rc + length (Suc port # ps)] = rc # [Suc rc..<Suc rc + length ps]"
      by simp
    have "listens (fst (startServer pf port rc)) = map (Pair Primary) (port # Suc port # ps)"
      unfolding unfold by (simp add: l)
    moreover have "list_all (\<lambda>p. DEFAULT_PORT \<le> p \<and> p \<le> MAX_PORT) (Suc port # ps)"
      using r Suc.prems lt by simp
    moreover have "delays (fst (startServer pf port rc)) =
        map (\<lambda>i. RETRY_DELAY * 2 ^ i) [rc..<rc + length (Suc port # ps)]"
      unfolding unfold idx by (simp add: d)
    ultimately show ?thesis by blast
  next
    case False
    then have "listens (fst (startServer pf port rc)) = map (Pair Primary) [port] \<and>
       delays (fst (startServer pf port rc)) = []"
      by (subst (1 2) startServer.simps)
         (auto simp: listens_listeningLogs delays_listeningLogs split: listen_result.splits)
    then show ?thesis
      by (intro exI [of _ "[]"]) simp
  qed
qed

subsection \<open>What the fallback phase adds to the trace\<close>

lemma extends_refl: "extends st st"
  by (simp add: extends_def)

lemma extends_trans: "extends a b \<Longrightarrow> extends b c \<Longrightarrow> extends a c"
  by (auto simp: extends_def)

lemma extends_events_update:
  "list_all fallbackEvent es \<Longrightarrow> extends st (st\<lparr>events := events st @ es\<rparr>)"
  by (auto simp: extends_def)

lemma startHttpServerWithFallback_extends:
  assumes "DEFAULT_PORT \<le> port" and "port \<le> MAX_PORT"
  shows "extends st (startHttpServerWithFallback pf port st)"
  using assms
  by (auto simp: extends_def startHttpServerWithFallback_def fallbackEvent_def Let_def
      split: listen_result.splits)

lemma startHttpServerWithFallback_range:
  assumes "DEFAULT_PORT \<le> port" and "port \<le> MAX_PORT" and "listenersInRange st"
  shows "listenersInRange (startHttpServerWithFallback pf port st)"
  using assms
  by (auto simp: listenersInRange_def startHttpServerWithFallback_def Let_def
      split: listen_result.splits)

lemma onError_extends:
  assumes "DEFAULT_PORT \<le> port" and "port \<le> MAX_PORT"
  shows "extends st (onError pf port code st)"
proof (cases "code = ''EADDRINUSE'' \<and> port < MAX_PORT")
  case True
  let ?st1 = "st\<lparr>events := events st @
     [ConsoleLog (''Port '' @ toString port @ '' is in use, trying port '' @ toString (port + 1) @ ''...'')]\<rparr>"
  have "extends st ?st1"
    by (rule extends_events_update) (simp add: fallbackEvent_def)
  moreover have "extends ?st1 (startHttpServerWithFallback pf (port + 1) ?st1)"
    using True assms by (intro startHttpServerWithFallback_extends) simp_all
  ultimately have "extends st (startHttpServerWithFallback pf (port + 1) ?st1)"
    by (rule extends_trans)
  then show ?thesis
    using True by (simp add: onError_def)
next
  case False
  then show ?thesis
    by (auto simp: onError_def extends_def fallbackEvent_def)
qed

lemma onError_range:
  assumes "DEFAULT_PORT \<le> port" and "port \<le> MAX_PORT" and "listenersInRange st"
  shows "listenersInRange (onError pf port code st)"
proof (cases "code = ''EADDRINUSE'' \<and> port < MAX_PORT")
  case True
  have "listenersInRange (st\<lparr>events := events st @
     [ConsoleLog (''Port '' @ toString port @ '' is in use, trying port '' @ toString (port + 1) @ ''...'')]\<rparr>)"
    using assms(3) by (simp add: listenersInRange_def)
  then show ?thesis
    using True assms by (simp add: onError_def startHttpServerWithFallback_range)
next
  case False
  then show ?thesis
    using assms(3) by (auto simp: onError_def listenersInRange_def)
qed

lemma emitError_extends_range:
  assumes "list_all (\<lambda>p. DEFAULT_PORT \<le> p \<and> p \<le> MAX_PORT) ports" and "listenersInRange st"
  shows "extends st (emitError pf code ports st) \<and> listenersInRange (emitError pf code ports st)"
  using assms
proof (induction ports arbitrary: st)
  case Nil
  then show ?case by (simp add: extends_refl)
next
  case (Cons p ps)
  let ?st1 = "onError pf p code st"
  from Cons.prems have a: "extends st ?st1" and b: "listenersInRange ?st1"
    by (simp_all add: onError_extends onError_range)
  show ?case
  proof (cases "status ?st1 = Running")
    case True
    from Cons.IH [of ?st1] Cons.prems b
    have c: "extends ?st1 (emitError pf code ps ?st1)"
      and d: "listenersInRange (emitError pf code ps ?st1)"
      by simp_all
    from extends_trans [OF a c] d True show ?thesis
      by (simp add: Let_def)
  next
    case False
    with a b show ?thesis by (simp add: Let_def)
  qed
qed

lemma dispatch_extends_range:
  assumes "listenersInRange st"
  shows "extends st (dispatch pf t st) \<and> listenersInRange (dispatch pf t st)"
proof (cases t)
  case (EmitError code)
  show ?thesis
  proof (cases "errorListeners st = []")
    case True
    with EmitError assms show ?thesis
      by (simp add: dispatch_def extends_def fallbackEvent_def listenersInRange_def)
  next
    case False
    with EmitError assms emitError_extends_range [of "errorListeners st" st pf code] show ?thesis
      by (simp add: dispatch_def listenersInRange_def)
  qed
next
  case EmitListening
  have "list_all fallbackEvent (concat (map (listeningLogs ''HTTP fallback server'') ps))" for ps
    by (induction ps) (simp_all add: listeningLogs_def fallbackEvent_def)
  with EmitListening assms show ?thesis
    by (simp add: dispatch_def emitListening_def extends_def listenersInRange_def)
qed

lemma steps_extends_range:
  assumes "listenersInRange st"
  shows "extends st (steps n pf st) \<and> listenersInRange (steps n pf st)"
  using assms
proof (induction n arbitrary: st)
  case 0
  then show ?case by (simp add: extends_refl)
next
  case (Suc n)
  show ?case
  proof (cases "status st \<noteq> Running \<or> nextTicks st = []")
    case True
    with Suc.prems show ?thesis
      by (auto simp: extends_refl split: list.splits)
  next
    case False
    then obtain t ts where ticks: "nextTicks st = t # ts" and run: "status st = Running"
      by (cases "nextTicks st") auto
    let ?st0 = "st\<lparr>nextTicks := ts\<rparr>"
    have r0: "listenersInRange ?st0"
      using Suc.prems by (simp add: listenersInRange_def)
    have e0: "extends st ?st0"
      by (simp add: extends_def)
    from dispatch_extends_range [OF r0, of pf t]
    have e1: "extends ?st0 (dispatch pf t ?st0)" and r1: "listenersInRange (dispatch pf t ?st0)"
      by simp_all
    from Suc.IH [OF r1]
    have e2: "extends (dispatch pf t ?st0) (steps n pf (dispatch pf t ?st0))"
      and r2: "listenersInRange (steps n pf (dispatch pf t ?st0))"
      by simp_all
    from extends_trans [OF e0 extends_trans [OF e1 e2]] r2 show ?thesis
      using ticks run by simp
  qed
qed

lemma startHttpFallback_events:
  "events (startHttpFallback pf) =
      [ConsoleLog ''Initializing native HTTP server fallback...'', Listen Fallback DEFAULT_PORT]"
  by (cases "pf Fallback DEFAULT_PORT") (simp_all add: startHttpFallback_def startHttpServerWithFallback_def)

lemma startHttpFallback_range: "listenersInRange (startHttpFallback pf)"
  by (cases "pf Fallback DEFAULT_PORT")
     (simp_all add: startHttpFallback_def startHttpServerWithFallback_def listenersInRange_def
      DEFAULT_PORT_def MAX_PORT_def)

lemma fallback_phase_events:
  "\<exists>post. events (steps n pf (startHttpFallback pf)) =
      [ConsoleLog ''Initializing native HTTP server fallback...'', Listen Fallback DEFAULT_PORT] @ post
    \<and> list_all fallbackEvent post"
proof -
  have "extends (startHttpFallback pf) (steps n pf (startHttpFallback pf))"
    using steps_extends_range [of "startHttpFallback pf" n pf] startHttpFallback_range [of pf]
    by simp
  then show ?thesis
    unfolding extends_def startHttpFallback_events by simp
qed

lemma fallbackEvents_readings:
  "list_all fallbackEvent es \<Longrightarrow>
     delays es = [] \<and>
     list_all (\<lambda>a. fst a = Fallback \<and> DEFAULT_PORT \<le> snd a \<and> snd a \<le> MAX_PORT) (listens es)"
proof (induction es)
  case Nil
  then show ?case by simp
next
  case (Cons e es)
  then show ?case
    by (cases e) (simp_all add: fallbackEvent_def)
qed

lemma same_strategy_listens:
  "list_all (\<lambda>a. fst a = s \<and> P (snd a)) xs \<Longrightarrow> xs = map (Pair s) (map snd xs)"
  by (induction xs) auto

subsection \<open>Acquisition under the Primary strategy\<close>

text \<open>
  C2. For every port \<open>p\<close> from 3000 to 3010: when the ports from 3000 up to \<open>p - 1\<close> are in
  use and \<open>p\<close> is free, the run ends with the Express server bound to \<open>p\<close>; the ports
  attempted are 3000, ..., \<open>p\<close>, each once and in this order, and exactly \<open>p - 3000\<close> timers
  were set, the \<open>i\<close>-th (counted from 0) for \<open>1000 * 2 ^ i\<close> milliseconds.
\<close>

theorem primary_binds_first_free_port:
  assumes "3000 \<le> p" and "p \<le> 3010"
    and "\<forall>q. 3000 \<le> q \<and> q < p \<longrightarrow> pf Primary q = Error ''EADDRINUSE''"
    and "pf Primary p = Listening"
  shows "main pf fuel = Some (trace pf fuel, Serving Primary p) \<and>
         listens (trace pf fuel) = map (Pair Primary) [3000..<Suc p] \<and>
         delays (trace pf fuel) = map (\<lambda>i. 1000 * 2 ^ i) [0..<p - 3000] \<and>
         length (delays (trace pf fuel)) = p - 3000"
proof -
  have sweep: "snd (startServer pf DEFAULT_PORT 0) = Served p \<and>
      delays (fst (startServer pf DEFAULT_PORT 0)) =
        map (\<lambda>i. RETRY_DELAY * 2 ^ i) [0..<0 + (p - DEFAULT_PORT)] \<and>
      listens (fst (startServer pf DEFAULT_PORT 0)) = map (Pair Primary) [DEFAULT_PORT..<Suc p]"
    using assms by (intro startServer_sweep) (simp_all add: DEFAULT_PORT_def MAX_PORT_def)
  then have served: "snd (startServer pf DEFAULT_PORT 0) = Served p"
    by simp
  have tr: "trace pf fuel =
      ConsoleLog ''Starting Express.js web server...'' # fst (startServer pf DEFAULT_PORT 0)"
    by (simp add: trace_unfold served)
  from sweep show ?thesis
    by (simp add: main_served [OF served] tr DEFAULT_PORT_def RETRY_DELAY_def del: upt_Suc)
qed

theorem primary_binds_first_free_port_witness:
  "main (inUse [3000, 3001]) 0 = Some (trace (inUse [3000, 3001]) 0, Serving Primary 3002) \<and>
   listens (trace (inUse [3000, 3001]) 0) = [(Primary, 3000), (Primary, 3001), (Primary, 3002)] \<and>
   delays (trace (inUse [3000, 3001]) 0) = [1000, 2000]"
proof -
  have busy: "\<forall>q. 3000 \<le> q \<and> q < 3002 \<longrightarrow> inUse [3000, 3001] Primary q = Error ''EADDRINUSE''"
    by (auto simp: inUse_def)
  have free: "inUse [3000, 3001] Primary 3002 = Listening"
    by (simp add: inUse_def)
  have two: "[0..<(3002::nat) - 3000] = [0, 1]" and three: "[3000..<Suc 3002] = [3000, 3001, 3002]"
    by (simp_all add: upt_conv_Cons)
  show ?thesis
    using primary_binds_first_free_port [of 3002 "inUse [3000, 3001]" 0, OF _ _ busy free]
    unfolding two three by simp
qed

lemma onError_tries_next_port:
  assumes "handle st = None" and "port < MAX_PORT"
  shows "events (onError pf port ''EADDRINUSE'' st) =
     events st @
       [ConsoleLog (''Port '' @ toString port @ '' is in use, trying port '' @
                    toString (port + 1) @ ''...''),
        Listen Fallback (port + 1)]"
  using assms
  by (cases "pf Fallback (Suc port)") (simp_all add: onError_def startHttpServerWithFallback_def)

lemma fallback_second_attempt:
  assumes "pf Fallback 3000 = Error ''EADDRINUSE''"
  shows "\<exists>post. events (steps (Suc n) pf (startHttpFallback pf)) =
      [ConsoleLog ''Initializing native HTTP server fallback...'', Listen Fallback 3000,
       ConsoleLog ''Port 3000 is in use, trying port 3001...'', Listen Fallback 3001] @ post \<and>
      list_all fallbackEvent post"
proof -
  let ?init = "\<lparr>errorListeners = [3000], listeningCallbacks = [3000], handle = None,
      nextTicks = [EmitError ''EADDRINUSE''],
      events = [ConsoleLog ''Initializing native HTTP server fallback...'', Listen Fallback 3000],
      status = Running\<rparr>"
  let ?st0 = "?init\<lparr>nextTicks := []\<rparr>"
  let ?st1 = "onError pf 3000 ''EADDRINUSE'' ?st0"
  have start: "startHttpFallback pf = ?init"
    using assms by (simp add: startHttpFallback_def startHttpServerWithFallback_def DEFAULT_PORT_def)
  have d: "dispatch pf (EmitError ''EADDRINUSE'') ?st0 = ?st1"
    by (simp add: dispatch_def Let_def)
  have unfold: "steps (Suc n) pf ?init = steps n pf ?st1"
    using d by simp
  have e1: "events ?st1 =
      [ConsoleLog ''Initializing native HTTP server fallback...'', Listen Fallback 3000,
       ConsoleLog ''Port 3000 is in use, trying port 3001...'', Listen Fallback 3001]"
    using onError_tries_next_port [of ?st0 3000 pf]
    by (simp add: MAX_PORT_def toString_ports)
  have "listenersInRange ?st0"
    by (simp add: listenersInRange_def DEFAULT_PORT_def MAX_PORT_def)
  then have "listenersInRange ?st1"
    by (intro onError_range) (simp_all add: DEFAULT_PORT_def MAX_PORT_def)
  then have "extends ?st1 (steps n pf ?st1)"
    using steps_extends_range [of ?st1 n pf] by simp
  then show ?thesis
    unfolding start unfold extends_def e1 by simp
qed

lemma exhausted_primary_trace:
  assumes "\<forall>q. 3000 \<le> q \<and> q \<le> 3010 \<longrightarrow> pf Primary q = Error ''EADDRINUSE''"
  shows "\<exists>pre. listens pre = map (Pair Primary) [3000..<3010] \<and>
     (\<forall>n. trace pf n =
       pre @ [Listen Primary 3010,
              ConsoleLog ''Port 3010 is in use, attempting next port...'',
              ConsoleError ''All ports from 3000 to 3010 are in use.'',
              ConsoleLog ''Attempting fallback to native HTTP server...''] @
       events (steps n pf (startHttpFallback pf)))"
proof -
  have "snd (startServer pf DEFAULT_PORT 0) = ToFallback \<and>
         (\<exists>pre. fst (startServer pf DEFAULT_PORT 0) =
            pre @ [Listen Primary MAX_PORT,
                   ConsoleLog ''Port 3010 is in use, attempting next port...'',
                   ConsoleError ''All ports from 3000 to 3010 are in use.'',
                   ConsoleLog ''Attempting fallback to native HTTP server...''] \<and>
            listens pre = map (Pair Primary) [DEFAULT_PORT..<MAX_PORT] \<and>
            delays pre = map (\<lambda>i. RETRY_DELAY * 2 ^ i) [0..<0 + (MAX_PORT - DEFAULT_PORT)])"
    using assms by (intro startServer_exhausted) (simp_all add: DEFAULT_PORT_def MAX_PORT_def)
  then obtain pre where h: "snd (startServer pf DEFAULT_PORT 0) = ToFallback"
    and f: "fst (startServer pf DEFAULT_PORT 0) =
            pre @ [Listen Primary MAX_PORT,
                   ConsoleLog ''Port 3010 is in use, attempting next port...'',
                   ConsoleError ''All ports from 3000 to 3010 are in use.'',
                   ConsoleLog ''Attempting fallback to native HTTP server...'']"
    and l: "listens pre = map (Pair Primary) [DEFAULT_PORT..<MAX_PORT]"
    by blast
  let ?pre = "ConsoleLog ''Starting Express.js web server...'' # pre"
  have "trace pf n =
       ?pre @ [Listen Primary 3010,
              ConsoleLog ''Port 3010 is in use, attempting next port...'',
              ConsoleError ''All ports from 3000 to 3010 are in use.'',
              ConsoleLog ''Attempting fallback to native HTTP server...''] @
       events (steps n pf (startHttpFallback pf))" for n
    unfolding trace_unfold h f by (simp add: MAX_PORT_def)
  moreover have "listens ?pre = map (Pair Primary) [3000..<3010]"
    using l by (simp add: MAX_PORT_def DEFAULT_PORT_def)
  ultimately show ?thesis by blast
qed

text \<open>
  C3. When every port from 3000 to 3010 is in use under Primary, the failed attempt at 3010
  is followed by three console lines, the call of \<^verbatim>\<open>startHttpFallback\<close> and its bind
  attempt at port 3000, with no timer in between; and whatever the fallback phase does
  after that, after any number of events, it sets no timer and attempts no port under
  Primary.
  Within the Fallback sweep the next port is tried at once: the \<^verbatim>\<open>'error'\<close> listener that
  captured a port below 3010, called with a port conflict on a server without a handle,
  prints its line and calls \<^verbatim>\<open>listen\<close> at the next port, and does nothing else; and when
  port 3000 is in use under Fallback as well, the run goes on from the attempt at 3000 with
  that line and the attempt at 3001, again with no timer from there on.
\<close>

theorem exhausted_primary_hands_over_without_delay:
  assumes "\<forall>q. 3000 \<le> q \<and> q \<le> 3010 \<longrightarrow> pf Primary q = Error ''EADDRINUSE''"
  shows "(\<exists>pre post.
     trace pf n =
       pre @ [Listen Primary 3010,
              ConsoleLog ''Port 3010 is in use, attempting next port...'',
              ConsoleError ''All ports from 3000 to 3010 are in use.'',
              ConsoleLog ''Attempting fallback to native HTTP server...'',
              ConsoleLog ''Initializing native HTTP server fallback...'',
              Listen Fallback 3000] @ post \<and>
     listens pre = map (Pair Primary) [3000..<3010] \<and>
     delays post = [] \<and>
     list_all (\<lambda>a. fst a = Fallback) (listens post)) \<and>
   (handle st = None \<and> port < MAX_PORT \<longrightarrow>
      events (onError pf port ''EADDRINUSE'' st) =
        events st @
          [ConsoleLog (''Port '' @ toString port @ '' is in use, trying port '' @
                       toString (port + 1) @ ''...''),
           Listen Fallback (port + 1)]) \<and>
   (pf Fallback 3000 = Error ''EADDRINUSE'' \<longrightarrow>
      (\<exists>pre post.
         trace pf (Suc n) =
           pre @ [Listen Primary 3010,
                  ConsoleLog ''Port 3010 is in use, attempting next port...'',
                  ConsoleError ''All ports from 3000 to 3010 are in use.'',
                  ConsoleLog ''Attempting fallback to native HTTP server...'',
                  ConsoleLog ''Initializing native HTTP server fallback...'',
                  Listen Fallback 3000,
                  ConsoleLog ''Port 3000 is in use, trying port 3001...'',
                  Listen Fallback 3001] @ post \<and>
         listens pre = map (Pair Primary) [3000..<3010] \<and>
         delays post = [] \<and>
         list_all (\<lambda>a. fst a = Fallback) (listens post)))"
proof (intro conjI impI)
  from exhausted_primary_trace [of pf] assms obtain pre
    where l: "listens pre = map (Pair Primary) [3000..<3010]"
      and t: "trace pf n =
       pre @ [Listen Primary 3010,
              ConsoleLog ''Port 3010 is in use, attempting next port...'',
              ConsoleError ''All ports from 3000 to 3010 are in use.'',
              ConsoleLog ''Attempting fallback to native HTTP server...''] @
       events (steps n pf (startHttpFallback pf))"
    by blast
  obtain post where p: "events (steps n pf (startHttpFallback pf)) =
      [ConsoleLog ''Initializing native HTTP server fallback...'', Listen Fallback DEFAULT_PORT] @ post"
    and q: "list_all fallbackEvent post"
    using fallback_phase_events [of n pf] by blast
  have "trace pf n =
       pre @ [Listen Primary 3010,
              ConsoleLog ''Port 3010 is in use, attempting next port...'',
              ConsoleError ''All ports from 3000 to 3010 are in use.'',
              ConsoleLog ''Attempting fallback to native HTTP server...'',
              ConsoleLog ''Initializing native HTTP server fallback...'',
              Listen Fallback 3000] @ post"
    unfolding t p by (simp add: DEFAULT_PORT_def)
  moreover have "delays post = []"
    using fallbackEvents_readings [OF q] by simp
  moreover have "list_all (\<lambda>a. fst a = Fallback) (listens post)"
    using fallbackEvents_readings [OF q] by (simp add: list_all_iff)
  ultimately show "\<exists>pre post.
     trace pf n =
       pre @ [Listen Primary 3010,
              ConsoleLog ''Port 3010 is in use, attempting next port...'',
              ConsoleError ''All ports from 3000 to 3010 are in use.'',
              ConsoleLog ''Attempting fallback to native HTTP server...'',
              ConsoleLog ''Initializing native HTTP server fallback...'',
              Listen Fallback 3000] @ post \<and>
     listens pre = map (Pair Primary) [3000..<3010] \<and>
     delays post = [] \<and>
     list_all (\<lambda>a. fst a = Fallback) (listens post)"
    using l by blast
next
  assume "handle st = None \<and> port < MAX_PORT"
  then show "events (onError pf port ''EADDRINUSE'' st) =
        events st @
          [ConsoleLog (''Port '' @ toString port @ '' is in use, trying port '' @
                       toString (port + 1) @ ''...''),
           Listen Fallback (port + 1)]"
    by (intro onError_tries_next_port) simp_all
next
  assume busy: "pf Fallback 3000 = Error ''EADDRINUSE''"
  from exhausted_primary_trace [of pf] assms obtain pre
    where l: "listens pre = map (Pair Primary) [3000..<3010]"
      and t: "trace pf (Suc n) =
       pre @ [Listen Primary 3010,
              ConsoleLog ''Port 3010 is in use, attempting next port...'',
              ConsoleError ''All ports from 3000 to 3010 are in use.'',
              ConsoleLog ''Attempting fallback to native HTTP server...''] @
       events (steps (Suc n) pf (startHttpFallback pf))"
    by blast
  from fallback_second_attempt [of pf n] busy obtain post
    where p: "events (steps (Suc n) pf (startHttpFallback pf)) =
      [ConsoleLog ''Initializing native HTTP server fallback...'', Listen Fallback 3000,
       ConsoleLog ''Port 3000 is in use, trying port 3001...'', Listen Fallback 3001] @ post"
    and q: "list_all fallbackEvent post"
    by blast
  have "trace pf (Suc n) =
           pre @ [Listen Primary 3010,
                  ConsoleLog ''Port 3010 is in use, attempting next port...'',
                  ConsoleError ''All ports from 3000 to 3010 are in use.'',
                  ConsoleLog ''Attempting fallback to native HTTP server...'',
                  ConsoleLog ''Initializing native HTTP server fallback...'',
                  Listen Fallback 3000,
                  ConsoleLog ''Port 3000 is in use, trying port 3001...'',
                  Listen Fallback 3001] @ post"
    unfolding t p by simp
  moreover have "delays post = []"
    using fallbackEvents_readings [OF q] by simp
  moreover have "list_all (\<lambda>a. fst a = Fallback) (listens post)"
    using fallbackEvents_readings [OF q] by (simp add: list_all_iff)
  ultimately show "\<exists>pre post.
         trace pf (Suc n) =
           pre @ [Listen Primary 3010,
                  ConsoleLog ''Port 3010 is in use, attempting next port...'',
                  ConsoleError ''All ports from 3000 to 3010 are in use.'',
                  ConsoleLog ''Attempting fallback to native HTTP server...'',
                  ConsoleLog ''Initializing native HTTP server fallback...'',
                  Listen Fallback 3000,
                  ConsoleLog ''Port 3000 is in use, trying port 3001...'',
                  Listen Fallback 3001] @ post \<and>
         listens pre = map (Pair Primary) [3000..<3010] \<and>
         delays post = [] \<and>
         list_all (\<lambda>a. fst a = Fallback) (listens post)"
    using l by blast
qed


theorem exhausted_primary_hands_over_without_delay_witness:
  "(\<exists>pre post.
     trace allInUse 2 =
       pre @ [Listen Primary 3010,
              ConsoleLog ''Port 3010 is in use, attempting next port...'',
              ConsoleError ''All ports from 3000 to 3010 are in use.'',
              ConsoleLog ''Attempting fallback to native HTTP server...'',
              ConsoleLog ''Initializing native HTTP server fallback...'',
              Listen Fallback 3000] @ post \<and>
     listens pre = map (Pair Primary) [3000..<3010] \<and>
     delays post = [] \<and>
     list_all (\<lambda>a. fst a = Fallback) (listens post)) \<and>
   events (onError allInUse 3000 ''EADDRINUSE'' (startHttpFallback allInUse)) =
     [ConsoleLog ''Initializing native HTTP server fallback...'',
      Listen Fallback 3000,
      ConsoleLog ''Port 3000 is in use, trying port 3001...'',
      Listen Fallback 3001] \<and>
   (\<exists>pre post.
      trace allInUse (Suc 2) =
        pre @ [Listen Primary 3010,
               ConsoleLog ''Port 3010 is in use, attempting next port...'',
               ConsoleError ''All ports from 3000 to 3010 are in use.'',
               ConsoleLog ''Attempting fallback to native HTTP server...'',
               ConsoleLog ''Initializing native HTTP server fallback...'',
               Listen Fallback 3000,
               ConsoleLog ''Port 3000 is in use, trying port 3001...'',
               Listen Fallback 3001] @ post \<and>
      listens pre = map (Pair Primary) [3000..<3010] \<and>
      delays post = [] \<and>
      list_all (\<lambda>a. fst a = Fallback) (listens post))"
proof -
  have busy: "\<forall>q. 3000 \<le> q \<and> q \<le> 3010 \<longrightarrow> allInUse Primary q = Error ''EADDRINUSE''"
    and fb: "allInUse Fallback 3000 = Error ''EADDRINUSE''"
    by (simp_all add: allInUse_def)
  have h: "handle (startHttpFallback allInUse) = None"
    and e: "events (startHttpFallback allInUse) =
      [ConsoleLog ''Initializing native HTTP server fallback...'', Listen Fallback 3000]"
    by (simp_all add: startHttpFallback_def startHttpServerWithFallback_def allInUse_def
        DEFAULT_PORT_def)
  have lt: "3000 < MAX_PORT"
    by (simp add: MAX_PORT_def)
  from exhausted_primary_hands_over_without_delay [where pf = allInUse and n = 2 and st = "startHttpFallback allInUse" and port = 3000]
    busy fb h lt
  show ?thesis
    by (simp add: e toString_ports)
qed


subsection \<open>Invariants of the whole run\<close>

text \<open>
  C8. At every point of a run, on every platform, each port a bind was attempted at lies
  between 3000 and 3010, and the attempts are first all under Primary and then all under
  Fallback: the strategy changes at most once and never back.
\<close>

theorem ports_in_range_one_switch:
  "list_all (\<lambda>a. 3000 \<le> snd a \<and> snd a \<le> 3010) (listens (trace pf n)) \<and>
   (\<exists>ps qs. listens (trace pf n) = map (Pair Primary) ps @ map (Pair Fallback) qs)"
proof -
  obtain ps where l: "listens (fst (startServer pf DEFAULT_PORT 0)) = map (Pair Primary) (DEFAULT_PORT # ps)"
    and r: "list_all (\<lambda>p. DEFAULT_PORT \<le> p \<and> p \<le> MAX_PORT) ps"
    using startServer_listens [of DEFAULT_PORT pf 0] by (auto simp: DEFAULT_PORT_def MAX_PORT_def)
  obtain post where p: "events (steps n pf (startHttpFallback pf)) =
      [ConsoleLog ''Initializing native HTTP server fallback...'', Listen Fallback DEFAULT_PORT] @ post"
    and q: "list_all fallbackEvent post"
    using fallback_phase_events [of n pf] by blast
  let ?fb = "listens (events (steps n pf (startHttpFallback pf)))"
  have fb: "list_all (\<lambda>a. fst a = Fallback \<and> DEFAULT_PORT \<le> snd a \<and> snd a \<le> MAX_PORT) ?fb"
    using fallbackEvents_readings [OF q] by (simp add: p DEFAULT_PORT_def MAX_PORT_def)
  then have fbmap: "?fb = map (Pair Fallback) (map snd ?fb)"
    by (rule same_strategy_listens)
  have pr: "list_all (\<lambda>a. 3000 \<le> snd a \<and> snd a \<le> 3010) (map (Pair Primary) (DEFAULT_PORT # ps))"
    using r by (simp add: list_all_iff DEFAULT_PORT_def MAX_PORT_def)
  have fr: "list_all (\<lambda>a. 3000 \<le> snd a \<and> snd a \<le> 3010) ?fb"
    using fb by (simp add: list_all_iff DEFAULT_PORT_def MAX_PORT_def)
  show ?thesis
  proof (cases "snd (startServer pf DEFAULT_PORT 0)")
    case (Served x)
    have "listens (trace pf n) = map (Pair Primary) (DEFAULT_PORT # ps) @ map (Pair Fallback) []"
      by (simp add: trace_unfold Served l)
    with pr show ?thesis by (metis append_Nil2 list.simps(8))
  next
    case ToFallback
    have "listens (trace pf n) = map (Pair Primary) (DEFAULT_PORT # ps) @ map (Pair Fallback) (map snd ?fb)"
      using fbmap by (simp add: trace_unfold ToFallback l listens_append)
    moreover from this have "list_all (\<lambda>a. 3000 \<le> snd a \<and> snd a \<le> 3010) (listens (trace pf n))"
      using pr fr fbmap by (metis list_all_append)
    ultimately show ?thesis by blast
  qed
qed

subsection \<open>The event loop\<close>

lemma steps_tick:
  assumes "status st = Running" and "nextTicks st = t # ts"
  shows "steps (Suc n) pf st = steps n pf (dispatch pf t (st\<lparr>nextTicks := ts\<rparr>))"
  using assms by simp

lemma steps_stopped: "status st \<noteq> Running \<Longrightarrow> steps n pf st = st"
  by (cases n) simp_all

lemma steps_idle: "nextTicks st = [] \<Longrightarrow> steps n pf st = st"
  by (cases n) simp_all

subsection \<open>Every port in use under both strategies\<close>

lemma allConflicts_port:
  "allConflicts pf \<Longrightarrow> DEFAULT_PORT \<le> q \<Longrightarrow> q \<le> MAX_PORT \<Longrightarrow> pf Fallback q = Error ''EADDRINUSE''"
  by (simp add: allConflicts_def list_all_iff del: upt_Suc)

lemma onError_conflict:
  assumes "allConflicts pf" and "handle st = None" and "DEFAULT_PORT \<le> port" and "port < MAX_PORT"
  shows "onError pf port ''EADDRINUSE'' st =
     st\<lparr>listeningCallbacks := listeningCallbacks st @ [Suc port],
        events := events st @
          [ConsoleLog (''Port '' @ toString port @ '' is in use, trying port '' @ toString (Suc port) @ ''...''),
           Listen Fallback (Suc port)],
        nextTicks := nextTicks st @ [EmitError ''EADDRINUSE''],
        errorListeners := errorListeners st @ [Suc port]\<rparr>"
proof -
  have "pf Fallback (Suc port) = Error ''EADDRINUSE''"
    using assms by (intro allConflicts_port) simp_all
  with assms show ?thesis
    by (simp add: onError_def startHttpServerWithFallback_def)
qed

lemma onError_last_port:
  "onError pf MAX_PORT code st = st\<lparr>events := events st @ fatalEvents, status := Exited 1\<rparr>"
  by (simp add: onError_def fatalEvents_def)

lemma emitError_conflicts_below_max:
  assumes "allConflicts pf" and "handle st = None" and "status st = Running"
    and "list_all (\<lambda>p. DEFAULT_PORT \<le> p \<and> p < MAX_PORT) ports"
  shows "status (emitError pf ''EADDRINUSE'' ports st) = Running \<and>
         handle (emitError pf ''EADDRINUSE'' ports st) = None \<and>
         errorListeners (emitError pf ''EADDRINUSE'' ports st) = errorListeners st @ map Suc ports \<and>
         nextTicks (emitError pf ''EADDRINUSE'' ports st) =
           nextTicks st @ replicate (length ports) (EmitError ''EADDRINUSE'') \<and>
         (\<exists>post. events (emitError pf ''EADDRINUSE'' ports st) = events st @ post)"
  using assms
proof (induction ports arbitrary: st)
  case Nil
  then show ?case by simp
next
  case (Cons p ps)
  let ?st1 = "onError pf p ''EADDRINUSE'' st"
  have eq: "?st1 =
     st\<lparr>listeningCallbacks := listeningCallbacks st @ [Suc p],
        events := events st @
          [ConsoleLog (''Port '' @ toString p @ '' is in use, trying port '' @ toString (Suc p) @ ''...''),
           Listen Fallback (Suc p)],
        nextTicks := nextTicks st @ [EmitError ''EADDRINUSE''],
        errorListeners := errorListeners st @ [Suc p]\<rparr>"
    using Cons.prems by (intro onError_conflict) simp_all
  have s1: "status ?st1 = Running" and h1: "handle ?st1 = None"
    and l1: "errorListeners ?st1 = errorListeners st @ [Suc p]"
    and t1: "nextTicks ?st1 = nextTicks st @ [EmitError ''EADDRINUSE'']"
    and e1: "events ?st1 = events st @
          [ConsoleLog (''Port '' @ toString p @ '' is in use, trying port '' @ toString (Suc p) @ ''...''),
           Listen Fallback (Suc p)]"
    unfolding eq using Cons.prems by simp_all
  have rest: "list_all (\<lambda>p. DEFAULT_PORT \<le> p \<and> p < MAX_PORT) ps"
    using Cons.prems by simp
  note ih = Cons.IH [OF Cons.prems(1) h1 s1 rest]
  have step: "emitError pf ''EADDRINUSE'' (p # ps) st = emitError pf ''EADDRINUSE'' ps ?st1"
    using s1 by (simp add: Let_def)
  show ?case
    unfolding step using ih
    by (auto simp: l1 t1 e1 replicate_app_Cons_same)
qed

lemma emitError_reaches_max:
  assumes "allConflicts pf" and "handle st = None" and "status st = Running"
    and "list_all (\<lambda>p. DEFAULT_PORT \<le> p \<and> p \<le> MAX_PORT) ports"
    and "MAX_PORT \<in> set ports"
  shows "status (emitError pf ''EADDRINUSE'' ports st) = Exited 1 \<and>
         handle (emitError pf ''EADDRINUSE'' ports st) = None \<and>
         (\<exists>post. events (emitError pf ''EADDRINUSE'' ports st) = events st @ post @ fatalEvents)"
  using assms
proof (induction ports arbitrary: st)
  case Nil
  then show ?case by simp
next
  case (Cons p ps)
  show ?case
  proof (cases "p = MAX_PORT")
    case True
    then show ?thesis
      using Cons.prems(2) by (simp add: onError_last_port Let_def)
  next
    case False
    with Cons.prems have lt: "p < MAX_PORT" and ge: "DEFAULT_PORT \<le> p" and mem: "MAX_PORT \<in> set ps"
      by auto
    let ?st1 = "onError pf p ''EADDRINUSE'' st"
    have eq: "?st1 =
       st\<lparr>listeningCallbacks := listeningCallbacks st @ [Suc p],
          events := events st @
            [ConsoleLog (''Port '' @ toString p @ '' is in use, trying port '' @ toString (Suc p) @ ''...''),
             Listen Fallback (Suc p)],
          nextTicks := nextTicks st @ [EmitError ''EADDRINUSE''],
          errorListeners := errorListeners st @ [Suc p]\<rparr>"
      using Cons.prems ge lt by (intro onError_conflict) simp_all
    have s1: "status ?st1 = Running" and h1: "handle ?st1 = None"
      and e1: "events ?st1 = events st @
            [ConsoleLog (''Port '' @ toString p @ '' is in use, trying port '' @ toString (Suc p) @ ''...''),
             Listen Fallback (Suc p)]"
      unfolding eq using Cons.prems by simp_all
    have rest: "list_all (\<lambda>p. DEFAULT_PORT \<le> p \<and> p \<le> MAX_PORT) ps"
      using Cons.prems by simp
    note ih = Cons.IH [OF Cons.prems(1) h1 s1 rest mem]
    have step: "emitError pf ''EADDRINUSE'' (p # ps) st = emitError pf ''EADDRINUSE'' ps ?st1"
      using s1 by (simp add: Let_def)
    show ?thesis
      unfolding step using ih by (auto simp: e1)
  qed
qed

lemma all_conflicts_exit:
  assumes "allConflicts pf" and "conflictState m st" and "m \<le> MAX_PORT"
  shows "status (steps (Suc (MAX_PORT - m)) pf st) = Exited 1 \<and>
         (\<exists>post. events (steps (Suc (MAX_PORT - m)) pf st) = events st @ post @ fatalEvents)"
  using assms(2,3)
proof (induction "MAX_PORT - m" arbitrary: m st)
  case 0
  then have m: "m = MAX_PORT" by simp
  from 0 obtain ts where ticks: "nextTicks st = EmitError ''EADDRINUSE'' # ts"
    by (cases "nextTicks st") (auto simp: conflictState_def)
  let ?st0 = "st\<lparr>nextTicks := ts\<rparr>"
  from 0 have run: "status st = Running" and ne: "errorListeners st \<noteq> []"
    and la: "last (errorListeners st) = MAX_PORT"
    and h0: "handle ?st0 = None" and s0: "status ?st0 = Running"
    and range: "list_all (\<lambda>p. DEFAULT_PORT \<le> p \<and> p \<le> MAX_PORT) (errorListeners st)"
    unfolding m by (simp_all add: conflictState_def)
  have mem: "MAX_PORT \<in> set (errorListeners st)"
    using ne la last_in_set by metis
  have d: "dispatch pf (EmitError ''EADDRINUSE'') ?st0 = emitError pf ''EADDRINUSE'' (errorListeners st) ?st0"
    using ne by (simp add: dispatch_def)
  from emitError_reaches_max [OF assms(1) h0 s0 range mem]
  have "status (emitError pf ''EADDRINUSE'' (errorListeners st) ?st0) = Exited 1"
    and "\<exists>post. events (emitError pf ''EADDRINUSE'' (errorListeners st) ?st0) = events st @ post @ fatalEvents"
    by simp_all
  then show ?case
    unfolding m using run ticks d by simp
next
  case (Suc d)
  then have lt: "m < MAX_PORT" and dm: "d = MAX_PORT - Suc m" by simp_all
  from Suc.prems obtain ts where ticks: "nextTicks st = EmitError ''EADDRINUSE'' # ts"
    by (cases "nextTicks st") (auto simp: conflictState_def)
  let ?st0 = "st\<lparr>nextTicks := ts\<rparr>"
  let ?L = "errorListeners st"
  let ?st1 = "emitError pf ''EADDRINUSE'' ?L ?st0"
  from Suc.prems have run: "status st = Running" and ne: "?L \<noteq> []"
    and la: "last ?L = m"
    and h0: "handle ?st0 = None" and s0: "status ?st0 = Running"
    and range: "list_all (\<lambda>p. DEFAULT_PORT \<le> p \<and> p \<le> m) ?L"
    and rest: "list_all (\<lambda>t. t = EmitError ''EADDRINUSE'') ts"
    using ticks by (simp_all add: conflictState_def)
  have below: "list_all (\<lambda>p. DEFAULT_PORT \<le> p \<and> p < MAX_PORT) ?L"
    using range lt by (auto simp: list_all_iff)
  have d1: "dispatch pf (EmitError ''EADDRINUSE'') ?st0 = ?st1"
    using ne by (simp add: dispatch_def)
  from emitError_conflicts_below_max [OF assms(1) h0 s0 below]
  have s1: "status ?st1 = Running" and h1: "handle ?st1 = None"
    and l1: "errorListeners ?st1 = ?L @ map Suc ?L"
    and t1: "nextTicks ?st1 = ts @ replicate (length ?L) (EmitError ''EADDRINUSE'')"
    and e1: "\<exists>post. events ?st1 = events st @ post"
    by simp_all
  have "last (?L @ map Suc ?L) = Suc m"
    using ne la by (simp add: last_map)
  moreover have "list_all (\<lambda>p. DEFAULT_PORT \<le> p \<and> p \<le> Suc m) (?L @ map Suc ?L)"
    using range by (auto simp: list_all_iff)
  moreover have "ts @ replicate (length ?L) (EmitError ''EADDRINUSE'') \<noteq> []"
    using ne by simp
  moreover have "list_all (\<lambda>t. t = EmitError ''EADDRINUSE'') (ts @ replicate (length ?L) (EmitError ''EADDRINUSE''))"
    using rest by (auto simp: list_all_iff)
  ultimately have cs: "conflictState (Suc m) ?st1"
    using s1 h1 ne by (simp add: conflictState_def l1 t1)
  from Suc.hyps(1) [OF dm cs] lt
  have x: "status (steps (Suc (MAX_PORT - Suc m)) pf ?st1) = Exited 1"
    and y: "\<exists>post. events (steps (Suc (MAX_PORT - Suc m)) pf ?st1) = events ?st1 @ post @ fatalEvents"
    by simp_all
  have unfold: "steps (Suc (MAX_PORT - m)) pf st = steps (Suc (MAX_PORT - Suc m)) pf ?st1"
  proof -
    have a: "MAX_PORT - m = Suc (MAX_PORT - Suc m)"
      using lt by simp
    show ?thesis
      unfolding a by (simp only: steps_tick [OF run ticks] d1)
  qed
  from e1 y obtain p1 p2 where "events ?st1 = events st @ p1"
    and "events (steps (Suc (MAX_PORT - Suc m)) pf ?st1) = events ?st1 @ p2 @ fatalEvents"
    by blast
  then have "events (steps (Suc (MAX_PORT - Suc m)) pf ?st1) = events st @ (p1 @ p2) @ fatalEvents"
    by simp
  with x show ?case
    unfolding unfold by blast
qed

lemma startHttpFallback_conflictState:
  assumes "allConflicts pf"
  shows "conflictState DEFAULT_PORT (startHttpFallback pf)"
proof -
  have "pf Fallback DEFAULT_PORT = Error ''EADDRINUSE''"
    using assms by (intro allConflicts_port) (simp_all add: DEFAULT_PORT_def MAX_PORT_def)
  then show ?thesis
    by (simp add: conflictState_def startHttpFallback_def startHttpServerWithFallback_def)
qed

lemma fallback_exhausted:
  assumes "allConflicts pf"
  shows "status (steps 11 pf (startHttpFallback pf)) = Exited 1 \<and>
         (\<exists>post. events (steps 11 pf (startHttpFallback pf)) =
            [ConsoleLog ''Initializing native HTTP server fallback...'', Listen Fallback DEFAULT_PORT] @
            post @ fatalEvents)"
proof -
  have "Suc (MAX_PORT - DEFAULT_PORT) = 11"
    by (simp add: MAX_PORT_def DEFAULT_PORT_def)
  with all_conflicts_exit [OF assms startHttpFallback_conflictState [OF assms]]
  show ?thesis
    by (simp add: startHttpFallback_events MAX_PORT_def DEFAULT_PORT_def)
qed

lemma both_exhausted_run:
  assumes "\<forall>q. 3000 \<le> q \<and> q \<le> 3010 \<longrightarrow>
             pf Primary q = Error ''EADDRINUSE'' \<and> pf Fallback q = Error ''EADDRINUSE''"
  shows "\<exists>pre mid. main pf 11 =
     Some (pre @ [ConsoleError ''All ports from 3000 to 3010 are in use.''] @ mid @
           [ConsoleError ''Fatal error: Unable to start server on any available port'',
            ProcessExit 1], Exit 1)"
proof -
  have ac: "allConflicts pf"
    using assms by (simp add: allConflicts_def list_all_iff DEFAULT_PORT_def MAX_PORT_def del: upt_Suc)
  have "snd (startServer pf DEFAULT_PORT 0) = ToFallback \<and>
         (\<exists>pre. fst (startServer pf DEFAULT_PORT 0) =
            pre @ [Listen Primary MAX_PORT,
                   ConsoleLog ''Port 3010 is in use, attempting next port...'',
                   ConsoleError ''All ports from 3000 to 3010 are in use.'',
                   ConsoleLog ''Attempting fallback to native HTTP server...''] \<and>
            listens pre = map (Pair Primary) [DEFAULT_PORT..<MAX_PORT] \<and>
            delays pre = map (\<lambda>i. RETRY_DELAY * 2 ^ i) [0..<0 + (MAX_PORT - DEFAULT_PORT)])"
    using assms by (intro startServer_exhausted) (simp_all add: DEFAULT_PORT_def MAX_PORT_def)
  then obtain pre where h: "snd (startServer pf DEFAULT_PORT 0) = ToFallback"
    and f: "fst (startServer pf DEFAULT_PORT 0) =
            pre @ [Listen Primary MAX_PORT,
                   ConsoleLog ''Port 3010 is in use, attempting next port...'',
                   ConsoleError ''All ports from 3000 to 3010 are in use.'',
                   ConsoleLog ''Attempting fallback to native HTTP server...'']"
    by blast
  let ?st = "steps 11 pf (startHttpFallback pf)"
  from fallback_exhausted [OF ac] obtain post where s: "status ?st = Exited 1"
    and e: "events ?st =
            [ConsoleLog ''Initializing native HTTP server fallback...'', Listen Fallback DEFAULT_PORT] @
            post @ fatalEvents"
    by blast
  have r: "runTicks 11 pf (startHttpFallback pf) = Some ?st"
    using s by (simp add: runTicks_def settled_def)
  have m: "main pf 11 = Some (trace pf 11, Exit 1)"
    using h r s by (simp add: main_def split_beta ending_of_def)
  let ?pre = "ConsoleLog ''Starting Express.js web server...'' # pre @
     [Listen Primary MAX_PORT, ConsoleLog ''Port 3010 is in use, attempting next port...'']"
  let ?mid = "[ConsoleLog ''Attempting fallback to native HTTP server...'',
               ConsoleLog ''Initializing native HTTP server fallback...'', Listen Fallback DEFAULT_PORT] @ post"
  have "trace pf 11 = ?pre @ [ConsoleError ''All ports from 3000 to 3010 are in use.''] @ ?mid @
           [ConsoleError ''Fatal error: Unable to start server on any available port'', ProcessExit 1]"
    unfolding trace_unfold h f e by (simp add: fatalEvents_def)
  with m show ?thesis
    by metis
qed

lemma allInUse_conflicts:
  "\<forall>q. 3000 \<le> q \<and> q \<le> 3010 \<longrightarrow>
     allInUse Primary q = Error ''EADDRINUSE'' \<and> allInUse Fallback q = Error ''EADDRINUSE''"
  by (simp add: allInUse_def)

lemma fatal_message_silent:
  "\<not> identifiesRange ''Fatal error: Unable to start server on any available port''"
  by (simp add: identifiesRange_def toString_ports DEFAULT_PORT_def MAX_PORT_def)

text \<open>
  C4, as amended. When every port from 3000 to 3010 is in use under both strategies, the run
  ends after eleven emitted events with exit status 1, and the last thing the process does
  before it exits is to print \<^verbatim>\<open>Fatal error: Unable to start server on any available port\<close>.
  The message that names the range, \<^verbatim>\<open>All ports from 3000 to 3010 are in use.\<close>, was
  printed earlier, by the Primary strategy when its own sweep was exhausted.
\<close>

theorem both_strategies_exhausted:
  assumes "\<forall>q. 3000 \<le> q \<and> q \<le> 3010 \<longrightarrow>
             pf Primary q = Error ''EADDRINUSE'' \<and> pf Fallback q = Error ''EADDRINUSE''"
  shows "\<exists>pre mid. main pf 11 =
     Some (pre @ [ConsoleError ''All ports from 3000 to 3010 are in use.''] @ mid @
           [ConsoleError ''Fatal error: Unable to start server on any available port'',
            ProcessExit 1], Exit 1)"
  using assms by (rule both_exhausted_run)

theorem both_strategies_exhausted_witness:
  "\<exists>pre mid. main allInUse 11 =
     Some (pre @ [ConsoleError ''All ports from 3000 to 3010 are in use.''] @ mid @
           [ConsoleError ''Fatal error: Unable to start server on any available port'',
            ProcessExit 1], Exit 1)"
  using both_strategies_exhausted [of allInUse] by (simp add: allInUse_def)

text \<open>
  C4, as stated, fails: with every port in use, the message printed right before the exit
  does not contain \<^verbatim>\<open>3000\<close> and \<^verbatim>\<open>3010\<close>, so it does not identify the exhausted range.
\<close>

theorem fatal_message_names_no_port:
  "\<not> (\<exists>pre msg. main allInUse 11 = Some (pre @ [ConsoleError msg, ProcessExit 1], Exit 1) \<and>
        identifiesRange msg)"
proof
  assume "\<exists>pre msg. main allInUse 11 = Some (pre @ [ConsoleError msg, ProcessExit 1], Exit 1) \<and>
        identifiesRange msg"
  then obtain pre msg
    where run: "main allInUse 11 = Some (pre @ [ConsoleError msg, ProcessExit 1], Exit 1)"
      and ident: "identifiesRange msg"
    by blast
  from both_exhausted_run [OF allInUse_conflicts] obtain pre' mid
    where "main allInUse 11 =
     Some (pre' @ [ConsoleError ''All ports from 3000 to 3010 are in use.''] @ mid @
           [ConsoleError ''Fatal error: Unable to start server on any available port'',
            ProcessExit 1], Exit 1)"
    by blast
  with run have "pre @ [ConsoleError msg, ProcessExit 1] =
      (pre' @ [ConsoleError ''All ports from 3000 to 3010 are in use.''] @ mid) @
      [ConsoleError ''Fatal error: Unable to start server on any available port'', ProcessExit 1]"
    by simp
  then have "msg = ''Fatal error: Unable to start server on any available port''"
    by (simp add: append_eq_append_conv)
  with ident fatal_message_silent show False
    by simp
qed

subsection \<open>The fallback sweep repeats its attempts\<close>

lemma allInUse_allConflicts: "allConflicts allInUse"
  by (simp add: allConflicts_def allInUse_def list_all_iff)

lemma start_allInUse:
  "startHttpFallback allInUse =
     \<lparr>errorListeners = [3000], listeningCallbacks = [3000], handle = None,
      nextTicks = [EmitError ''EADDRINUSE''],
      events = [ConsoleLog ''Initializing native HTTP server fallback...'', Listen Fallback 3000],
      status = Running\<rparr>"
  by (simp add: startHttpFallback_def startHttpServerWithFallback_def allInUse_def DEFAULT_PORT_def)

lemma onError_allInUse:
  assumes "handle st = None" and "3000 \<le> port" and "port < 3010"
  shows "onError allInUse port ''EADDRINUSE'' st =
     st\<lparr>listeningCallbacks := listeningCallbacks st @ [Suc port],
        events := events st @
          [ConsoleLog (''Port '' @ toString port @ '' is in use, trying port '' @ toString (Suc port) @ ''...''),
           Listen Fallback (Suc port)],
        nextTicks := nextTicks st @ [EmitError ''EADDRINUSE''],
        errorListeners := errorListeners st @ [Suc port]\<rparr>"
  using assms by (intro onError_conflict allInUse_allConflicts) (simp_all add: DEFAULT_PORT_def MAX_PORT_def)

lemma listens_three_emissions:
  "listens (events (steps 3 allInUse (startHttpFallback allInUse))) =
     map (Pair Fallback) [3000, 3001, 3001, 3002, 3001, 3002, 3002, 3003]"
  unfolding start_allInUse
  by (simp add: numeral_3_eq_3 dispatch_def onError_allInUse)

lemma listens_two_emissions:
  "nextTicks (steps 2 allInUse (startHttpFallback allInUse)) =
     [EmitError ''EADDRINUSE'', EmitError ''EADDRINUSE'']"
  unfolding start_allInUse
  by (simp add: numeral_2_eq_2 dispatch_def onError_allInUse)

text \<open>
  C9. The claim is that each port is attempted at most once and that no two attempts are
  under way together. With every port in use, the Primary sweep attempts 3000, ..., 3010
  once each; the Fallback sweep, which registers one more \<^verbatim>\<open>'error'\<close> listener on the same
  server at each call, attempts within its first three events 3000, then 3001, then 3001
  and 3002, then 3001, 3002, 3002 and 3003; after the second event the outcomes of two
  attempts are queued together.
\<close>

theorem fallback_attempts_ports_again:
  "listens (trace allInUse 3) =
     map (Pair Primary) [3000, 3001, 3002, 3003, 3004, 3005, 3006, 3007, 3008, 3009, 3010] @
     map (Pair Fallback) [3000, 3001, 3001, 3002, 3001, 3002, 3002, 3003] \<and>
   nextTicks (steps 2 allInUse (startHttpFallback allInUse)) =
     [EmitError ''EADDRINUSE'', EmitError ''EADDRINUSE'']"
proof -
  have "snd (startServer allInUse DEFAULT_PORT 0) = ToFallback \<and>
         (\<exists>pre. fst (startServer allInUse DEFAULT_PORT 0) =
            pre @ [Listen Primary MAX_PORT,
                   ConsoleLog ''Port 3010 is in use, attempting next port...'',
                   ConsoleError ''All ports from 3000 to 3010 are in use.'',
                   ConsoleLog ''Attempting fallback to native HTTP server...''] \<and>
            listens pre = map (Pair Primary) [DEFAULT_PORT..<MAX_PORT] \<and>
            delays pre = map (\<lambda>i. RETRY_DELAY * 2 ^ i) [0..<0 + (MAX_PORT - DEFAULT_PORT)])"
    by (intro startServer_exhausted) (simp_all add: DEFAULT_PORT_def MAX_PORT_def allInUse_def)
  then obtain pre where h: "snd (startServer allInUse DEFAULT_PORT 0) = ToFallback"
    and f: "fst (startServer allInUse DEFAULT_PORT 0) =
            pre @ [Listen Primary MAX_PORT,
                   ConsoleLog ''Port 3010 is in use, attempting next port...'',
                   ConsoleError ''All ports from 3000 to 3010 are in use.'',
                   ConsoleLog ''Attempting fallback to native HTTP server...'']"
    and l: "listens pre = map (Pair Primary) [DEFAULT_PORT..<MAX_PORT]"
    by blast
  have r: "[DEFAULT_PORT..<MAX_PORT] = [3000, 3001, 3002, 3003, 3004, 3005, 3006, 3007, 3008, 3009]"
    by (simp add: DEFAULT_PORT_def MAX_PORT_def upt_conv_Cons)
  have l': "listens pre =
      map (Pair Primary) [3000, 3001, 3002, 3003, 3004, 3005, 3006, 3007, 3008, 3009]"
    unfolding l r ..
  have "listens (trace allInUse 3) =
     map (Pair Primary) [3000, 3001, 3002, 3003, 3004, 3005, 3006, 3007, 3008, 3009, 3010] @
     map (Pair Fallback) [3000, 3001, 3001, 3002, 3001, 3002, 3002, 3003]"
    unfolding trace_unfold h f
    by (simp add: listens_append l' listens_three_emissions MAX_PORT_def)
  then show ?thesis
    using listens_two_emissions by simp
qed

text \<open>
  With 3000 and 3001 in use and 3002 free, the listener that captured 3000 runs again on
  the second \<^verbatim>\<open>'error'\<close> event and once more on the third, when the server is already bound
  to 3002: \<^verbatim>\<open>listen\<close> throws and the process ends.
\<close>

lemma fallback_third_port:
  "steps 3 (primaryExhausted [3000, 3001]) (startHttpFallback (primaryExhausted [3000, 3001])) =
     \<lparr>errorListeners = [3000, 3001, 3001, 3002], listeningCallbacks = [3000, 3001, 3001, 3002],
      handle = Some 3002,
      nextTicks = [EmitListening],
      events = [ConsoleLog ''Initializing native HTTP server fallback...'',
                Listen Fallback 3000,
                ConsoleLog ''Port 3000 is in use, trying port 3001...'',
                Listen Fallback 3001,
                ConsoleLog ''Port 3000 is in use, trying port 3001...'',
                Listen Fallback 3001,
                ConsoleLog ''Port 3001 is in use, trying port 3002...'',
                Listen Fallback 3002,
                ConsoleLog ''Port 3000 is in use, trying port 3001...'',
                Uncaught ''ERR_SERVER_ALREADY_LISTEN''],
      status = Thrown ''ERR_SERVER_ALREADY_LISTEN''\<rparr>"
proof -
  have start: "startHttpFallback (primaryExhausted [3000, 3001]) =
     \<lparr>errorListeners = [3000], listeningCallbacks = [3000], handle = None,
      nextTicks = [EmitError ''EADDRINUSE''],
      events = [ConsoleLog ''Initializing native HTTP server fallback...'', Listen Fallback 3000],
      status = Running\<rparr>"
    by (simp add: startHttpFallback_def startHttpServerWithFallback_def primaryExhausted_def
        inUse_def DEFAULT_PORT_def)
  show ?thesis
    unfolding start
    by (simp add: numeral_3_eq_3 dispatch_def onError_def startHttpServerWithFallback_def
        primaryExhausted_def inUse_def MAX_PORT_def toString_ports)
qed

subsection \<open>Every run settles\<close>

lemma onError_running:
  assumes "status (onError pf p code st) = Running"
  shows "code = ''EADDRINUSE'' \<and> p < MAX_PORT \<and> handle st = None \<and>
         errorListeners (onError pf p code st) = errorListeners st @ [Suc p] \<and>
         listeningTicks (onError pf p code st) =
           listeningTicks st + (if handle (onError pf p code st) = None then 0 else 1)"
proof -
  have c: "code = ''EADDRINUSE'' \<and> p < MAX_PORT"
    using assms by (auto simp: onError_def split: if_splits)
  have h: "handle st = None"
    using assms c by (auto simp: onError_def startHttpServerWithFallback_def split: if_splits)
  show ?thesis
    using c h
    by (cases "pf Fallback (Suc p)")
       (simp_all add: onError_def startHttpServerWithFallback_def listeningTicks_def)
qed

lemma emitError_running:
  assumes "ports \<noteq> []" and "status (emitError pf code ports st) = Running"
  shows "handle st = None \<and> last ports < MAX_PORT \<and>
         errorListeners (emitError pf code ports st) = errorListeners st @ map Suc ports \<and>
         listeningTicks (emitError pf code ports st) =
           listeningTicks st + (if handle (emitError pf code ports st) = None then 0 else 1)"
  using assms
proof (induction ports arbitrary: st rule: list_nonempty_induct)
  case (single p)
  then have "status (onError pf p code st) = Running"
    by (auto simp: Let_def split: if_splits)
  from onError_running [OF this] show ?case
    by (auto simp: Let_def)
next
  case (cons p ps)
  let ?st1 = "onError pf p code st"
  have r1: "status ?st1 = Running"
    using cons.prems by (auto simp: Let_def split: if_splits)
  then have step: "emitError pf code (p # ps) st = emitError pf code ps ?st1"
    by (simp add: Let_def)
  with cons.prems have r2: "status (emitError pf code ps ?st1) = Running"
    by simp
  note a = onError_running [OF r1]
  note b = cons.IH [OF r2]
  show ?case
    unfolding step using a b cons.hyps by auto
qed

lemma dispatch_listening:
  "status (dispatch pf EmitListening st) = status st \<and>
   handle (dispatch pf EmitListening st) = handle st \<and>
   errorListeners (dispatch pf EmitListening st) = errorListeners st \<and>
   nextTicks (dispatch pf EmitListening st) = nextTicks st"
  by (simp add: dispatch_def emitListening_def)

lemma tick_decreases:
  assumes "wellFormed st" and "status st = Running" and "nextTicks st = t # ts"
    and "status (dispatch pf t (st\<lparr>nextTicks := ts\<rparr>)) = Running"
  shows "wellFormed (dispatch pf t (st\<lparr>nextTicks := ts\<rparr>)) \<and>
         fuelBound (dispatch pf t (st\<lparr>nextTicks := ts\<rparr>)) < fuelBound st"
proof (cases t)
  case EmitListening
  let ?st0 = "st\<lparr>nextTicks := ts\<rparr>"
  have cnt: "listeningTicks st = Suc (listeningTicks ?st0)"
    using assms(3) EmitListening by (simp add: listeningTicks_def)
  then have h: "handle st \<noteq> None"
    using assms(1) by (auto simp: wellFormed_def)
  show ?thesis
    using assms(1) h cnt dispatch_listening [of pf ?st0] unfolding EmitListening
    by (auto simp: wellFormed_def fuelBound_def listeningTicks_def)
next
  case (EmitError code)
  let ?st0 = "st\<lparr>nextTicks := ts\<rparr>"
  let ?L = "errorListeners st"
  have ne: "?L \<noteq> []" and top: "last ?L \<le> MAX_PORT"
    using assms(1) by (simp_all add: wellFormed_def)
  have d: "dispatch pf t ?st0 = emitError pf code ?L ?st0"
    using ne EmitError by (simp add: dispatch_def)
  have run: "status (emitError pf code ?L ?st0) = Running"
    using assms(4) d by simp
  from emitError_running [OF ne run]
  have h0: "handle st = None" and lt: "last ?L < MAX_PORT"
    and l1: "errorListeners (emitError pf code ?L ?st0) = ?L @ map Suc ?L"
    and c1: "listeningTicks (emitError pf code ?L ?st0) =
           listeningTicks ?st0 + (if handle (emitError pf code ?L ?st0) = None then 0 else 1)"
    by simp_all
  have "listeningTicks st = 0"
    using assms(1) h0 by (simp add: wellFormed_def)
  then have c0: "listeningTicks ?st0 = 0"
    using assms(3) EmitError by (simp add: listeningTicks_def)
  have la: "last (?L @ map Suc ?L) = Suc (last ?L)"
    using ne by (simp add: last_map)
  show ?thesis
    unfolding d using ne lt h0 c0 c1 la
    by (auto simp: wellFormed_def fuelBound_def l1)
qed

lemma steps_settle:
  assumes "wellFormed st" and "fuelBound st \<le> n"
  shows "settled (steps n pf st)"
  using assms
proof (induction n arbitrary: st)
  case 0
  then show ?case
    by (simp add: fuelBound_def split: if_splits)
next
  case (Suc n)
  show ?case
  proof (cases "status st \<noteq> Running \<or> nextTicks st = []")
    case True
    then have "steps (Suc n) pf st = st"
      using steps_stopped steps_idle by metis
    with True show ?thesis
      by (auto simp: settled_def)
  next
    case False
    then obtain t ts where run: "status st = Running" and ticks: "nextTicks st = t # ts"
      by (cases "nextTicks st") auto
    let ?st1 = "dispatch pf t (st\<lparr>nextTicks := ts\<rparr>)"
    have unfold: "steps (Suc n) pf st = steps n pf ?st1"
      using run ticks by (rule steps_tick)
    show ?thesis
    proof (cases "status ?st1 = Running")
      case True
      from tick_decreases [OF Suc.prems(1) run ticks True] Suc.prems(2)
      have "wellFormed ?st1" and "fuelBound ?st1 \<le> n"
        by simp_all
      then show ?thesis
        unfolding unfold by (rule Suc.IH)
    next
      case False
      then show ?thesis
        unfolding unfold by (simp add: steps_stopped settled_def)
    qed
  qed
qed

lemma startHttpFallback_wellFormed:
  "wellFormed (startHttpFallback pf) \<and> fuelBound (startHttpFallback pf) \<le> 12"
  by (cases "pf Fallback DEFAULT_PORT")
     (simp_all add: startHttpFallback_def startHttpServerWithFallback_def wellFormed_def
      fuelBound_def listeningTicks_def MAX_PORT_def DEFAULT_PORT_def)

lemma fallback_settles: "settled (steps 12 pf (startHttpFallback pf))"
  using startHttpFallback_wellFormed [of pf] by (intro steps_settle) simp_all

lemma main_returns: "\<exists>e. main pf 12 = Some (trace pf 12, e)"
  using fallback_settles [of pf]
  by (cases "snd (startServer pf DEFAULT_PORT 0)") (simp_all add: main_def split_beta runTicks_def)

subsection \<open>Errors other than a port conflict\<close>

lemma answered_more: "answered pf ts q \<Longrightarrow> answered pf (ts @ us) q"
  by (auto simp: answered_def split: listen_result.splits)

lemma answered_new: "answered pf (ts @ [case pf Fallback q of Listening \<Rightarrow> EmitListening | Error c \<Rightarrow> EmitError c]) q"
  by (auto simp: answered_def split: listen_result.splits)

lemma startHttpServerWithFallback_pending:
  assumes "fatalPending pf st" and "status st = Running"
  shows "fatalPending pf (startHttpServerWithFallback pf port st)"
proof (cases "handle st")
  case (Some a)
  then show ?thesis
    by (simp add: startHttpServerWithFallback_def fatalPending_def)
next
  case None
  let ?t = "case pf Fallback port of Listening \<Rightarrow> EmitListening | Error c \<Rightarrow> EmitError c"
  have old: "list_all (\<lambda>a. answered pf (nextTicks st @ [?t]) (snd a)) (listens (events st))"
    using assms by (auto simp: fatalPending_def list_all_iff intro: answered_more)
  have new: "answered pf (nextTicks st @ [?t]) port"
    by (rule answered_new)
  show ?thesis
    using None assms(2) old new
    by (cases "pf Fallback port")
       (simp_all add: startHttpServerWithFallback_def fatalPending_def listens_append)
qed

lemma onError_pending:
  assumes "fatalPending pf st" and "status st = Running"
  shows "fatalPending pf (onError pf p code st)"
proof (cases "code = ''EADDRINUSE'' \<and> p < MAX_PORT")
  case True
  let ?st1 = "st\<lparr>events := events st @
     [ConsoleLog (''Port '' @ toString p @ '' is in use, trying port '' @ toString (p + 1) @ ''...'')]\<rparr>"
  have "fatalPending pf ?st1" and "status ?st1 = Running"
    using assms by (simp_all add: fatalPending_def listens_append)
  then have "fatalPending pf (startHttpServerWithFallback pf (p + 1) ?st1)"
    by (rule startHttpServerWithFallback_pending)
  with True show ?thesis
    by (simp add: onError_def)
next
  case False
  then show ?thesis
    by (auto simp: onError_def fatalPending_def)
qed

lemma emitError_pending:
  assumes "fatalPending pf st" and "status st = Running"
  shows "fatalPending pf (emitError pf code ports st)"
  using assms
proof (induction ports arbitrary: st)
  case Nil
  then show ?case by simp
next
  case (Cons p ps)
  have a: "fatalPending pf (onError pf p code st)"
    using Cons.prems by (rule onError_pending)
  show ?case
  proof (cases "status (onError pf p code st) = Running")
    case True
    with Cons.IH [OF a] show ?thesis
      by (simp add: Let_def)
  next
    case False
    with a show ?thesis
      by (simp add: Let_def)
  qed
qed

lemma emitError_fatal_code:
  assumes "code \<noteq> ''EADDRINUSE''" and "ports \<noteq> []"
  shows "emitError pf code ports st =
     st\<lparr>events := events st @
          [ConsoleError ''Fatal error: Unable to start server on any available port'', ProcessExit 1],
        status := Exited 1\<rparr>"
  using assms by (cases ports) (simp_all add: onError_def Let_def)

lemma dispatch_fatal_code:
  assumes "code \<noteq> ''EADDRINUSE''" and "errorListeners st \<noteq> []"
  shows "dispatch pf (EmitError code) st =
     st\<lparr>events := events st @
          [ConsoleError ''Fatal error: Unable to start server on any available port'', ProcessExit 1],
        status := Exited 1\<rparr>"
  using assms by (simp add: dispatch_def emitError_fatal_code)

lemma dispatch_pending:
  assumes "fatalPending pf st" and "status st = Running" and "nextTicks st = t # ts"
  shows "fatalPending pf (dispatch pf t (st\<lparr>nextTicks := ts\<rparr>))"
proof (cases "\<exists>code. t = EmitError code \<and> code \<noteq> ''EADDRINUSE''")
  case True
  then obtain code where t: "t = EmitError code" and c: "code \<noteq> ''EADDRINUSE''"
    by blast
  show ?thesis
  proof (cases "errorListeners st = []")
    case True
    then show ?thesis
      unfolding t by (simp add: dispatch_def fatalPending_def)
  next
    case False
    then have "errorListeners (st\<lparr>nextTicks := ts\<rparr>) \<noteq> []"
      by simp
    from dispatch_fatal_code [OF c this] show ?thesis
      unfolding t by (simp add: fatalPending_def)
  qed
next
  case False
  let ?st0 = "st\<lparr>nextTicks := ts\<rparr>"
  have keep: "EmitError code \<in> set (nextTicks st) \<Longrightarrow> code \<noteq> ''EADDRINUSE'' \<Longrightarrow> EmitError code \<in> set ts"
    for code
    using False assms(3) by auto
  have p0: "fatalPending pf ?st0"
    using assms(1,2) keep
    by (auto simp: fatalPending_def list_all_iff answered_def split: listen_result.splits)
  have r0: "status ?st0 = Running"
    using assms(2) by simp
  show ?thesis
  proof (cases t)
    case (EmitError code)
    show ?thesis
    proof (cases "errorListeners st = []")
      case True
      then show ?thesis
        unfolding EmitError by (simp add: dispatch_def fatalPending_def)
    next
      case False
      then show ?thesis
        unfolding EmitError using emitError_pending [OF p0 r0] by (simp add: dispatch_def)
    qed
  next
    case EmitListening
    have "listens (concat (map (listeningLogs ''HTTP fallback server'') ps)) = []" for ps
      by (induction ps) (simp_all add: listens_append listens_listeningLogs)
    then show ?thesis
      unfolding EmitListening using p0
      by (simp add: dispatch_def emitListening_def fatalPending_def listens_append)
  qed
qed

lemma steps_pending:
  assumes "fatalPending pf st"
  shows "fatalPending pf (steps n pf st)"
  using assms
proof (induction n arbitrary: st)
  case 0
  then show ?case by simp
next
  case (Suc n)
  show ?case
  proof (cases "status st \<noteq> Running \<or> nextTicks st = []")
    case True
    then have "steps (Suc n) pf st = st"
      using steps_stopped steps_idle by metis
    with Suc.prems show ?thesis by simp
  next
    case False
    then obtain t ts where run: "status st = Running" and ticks: "nextTicks st = t # ts"
      by (cases "nextTicks st") auto
    have "fatalPending pf (dispatch pf t (st\<lparr>nextTicks := ts\<rparr>))"
      using Suc.prems run ticks by (rule dispatch_pending)
    then have "fatalPending pf (steps n pf (dispatch pf t (st\<lparr>nextTicks := ts\<rparr>)))"
      by (rule Suc.IH)
    then show ?thesis
      by (simp only: steps_tick [OF run ticks])
  qed
qed

lemma startHttpFallback_pending: "fatalPending pf (startHttpFallback pf)"
  unfolding startHttpFallback_def
  by (rule startHttpServerWithFallback_pending) (simp_all add: fatalPending_def)

lemma settled_after_fatal:
  assumes "settled (steps n pf (startHttpFallback pf))"
    and "(Fallback, q) \<in> set (listens (events (steps n pf (startHttpFallback pf))))"
    and "pf Fallback q = Error code" and "code \<noteq> ''EADDRINUSE''"
  shows "ending_of (steps n pf (startHttpFallback pf)) = Exit 1 \<or>
         (\<exists>x. ending_of (steps n pf (startHttpFallback pf)) = Crash x)"
proof -
  let ?st = "steps n pf (startHttpFallback pf)"
  have p: "fatalPending pf ?st"
    using startHttpFallback_pending by (rule steps_pending)
  have "status ?st \<noteq> Running"
  proof
    assume run: "status ?st = Running"
    with assms(1) have "nextTicks ?st = []"
      by (simp add: settled_def)
    with p run assms(2,3,4) show False
      by (auto simp: fatalPending_def list_all_iff answered_def)
  qed
  with p show ?thesis
    by (cases "status ?st") (auto simp: ending_of_def fatalPending_def)
qed

lemma startServer_other:
  assumes "pf Primary port = Error code" and "code \<noteq> ''EADDRINUSE''"
  shows "startServer pf port rc =
     ([Listen Primary port, ConsoleError ''Server error:'',
       ConsoleLog ''Attempting fallback to native HTTP server...''], ToFallback)"
  using assms by (subst startServer.simps) simp

lemma startServer_other_after_conflicts:
  assumes "p \<le> MAX_PORT" and "port \<le> p"
    and "\<forall>q. port \<le> q \<and> q < p \<longrightarrow> pf Primary q = Error ''EADDRINUSE''"
    and "pf Primary p = Error code" and "code \<noteq> ''EADDRINUSE''"
  shows "snd (startServer pf port rc) = ToFallback \<and>
         (\<exists>pre. fst (startServer pf port rc) =
            pre @ [Listen Primary p, ConsoleError ''Server error:'',
                   ConsoleLog ''Attempting fallback to native HTTP server...''] \<and>
            listens pre = map (Pair Primary) [port..<p] \<and>
            delays pre = map (\<lambda>i. RETRY_DELAY * 2 ^ i) [rc..<rc + (p - port)])"
  using assms(1,2,3)
proof (induction "p - port" arbitrary: port rc)
  case 0
  then have "port = p" by simp
  moreover have "startServer pf p rc =
     ([Listen Primary p, ConsoleError ''Server error:'',
       ConsoleLog ''Attempting fallback to native HTTP server...''], ToFallback)"
    using assms(4,5) by (rule startServer_other)
  ultimately show ?case
    by simp
next
  case (Suc d)
  then have lt: "port < p" and busy: "pf Primary port = Error ''EADDRINUSE''"
    by auto
  from lt Suc.prems have ltm: "port < MAX_PORT" by simp
  have "snd (startServer pf (Suc port) (Suc rc)) = ToFallback \<and>
         (\<exists>pre. fst (startServer pf (Suc port) (Suc rc)) =
            pre @ [Listen Primary p, ConsoleError ''Server error:'',
                   ConsoleLog ''Attempting fallback to native HTTP server...''] \<and>
            listens pre = map (Pair Primary) [Suc port..<p] \<and>
            delays pre = map (\<lambda>i. RETRY_DELAY * 2 ^ i) [Suc rc..<Suc rc + (p - Suc port)])"
    using Suc.hyps(1) [of "Suc port" "Suc rc"] Suc.hyps(2) Suc.prems lt by auto
  then obtain pre where h: "snd (startServer pf (Suc port) (Suc rc)) = ToFallback"
    and f: "fst (startServer pf (Suc port) (Suc rc)) =
            pre @ [Listen Primary p, ConsoleError ''Server error:'',
                   ConsoleLog ''Attempting fallback to native HTTP server...'']"
    and l: "listens pre = map (Pair Primary) [Suc port..<p]"
    and d: "delays pre = map (\<lambda>i. RETRY_DELAY * 2 ^ i) [Suc rc..<Suc rc + (p - Suc port)]"
    by blast
  have e: "Suc rc + (p - Suc port) = rc + (p - port)"
    using lt by simp
  have "rc < rc + (p - port)"
    using lt by simp
  then have "[rc..<rc + (p - port)] = rc # [Suc rc..<rc + (p - port)]"
    by (rule upt_conv_Cons)
  then have idx: "[rc..<rc + (p - port)] = rc # [Suc rc..<Suc rc + (p - Suc port)]"
    unfolding e by simp
  have idx2: "[port..<p] = port # [Suc port..<p]"
    using lt by (rule upt_conv_Cons)
  have unfold: "startServer pf port rc =
     ([Listen Primary port,
       ConsoleLog (''Port '' @ toString port @ '' is in use, attempting next port...''),
       SetTimeout (RETRY_DELAY * 2 ^ rc)] @ fst (startServer pf (Suc port) (Suc rc)),
      snd (startServer pf (Suc port) (Suc rc)))"
    using busy ltm by (rule startServer_conflict)
  let ?pre = "[Listen Primary port,
       ConsoleLog (''Port '' @ toString port @ '' is in use, attempting next port...''),
       SetTimeout (RETRY_DELAY * 2 ^ rc)] @ pre"
  have "fst (startServer pf port rc) =
            ?pre @ [Listen Primary p, ConsoleError ''Server error:'',
                   ConsoleLog ''Attempting fallback to native HTTP server...'']"
    unfolding unfold by (simp add: f)
  moreover have "listens ?pre = map (Pair Primary) [port..<p]"
    unfolding idx2 by (simp add: l)
  moreover have "delays ?pre = map (\<lambda>i. RETRY_DELAY * 2 ^ i) [rc..<rc + (p - port)]"
    unfolding idx by (simp add: d)
  moreover have "snd (startServer pf port rc) = ToFallback"
    unfolding unfold by (simp add: h)
  ultimately show ?case by blast
qed

lemma main_ending:
  assumes "main pf fuel = Some (tr, e)"
  shows "tr = trace pf fuel \<and>
         (case snd (startServer pf DEFAULT_PORT 0) of
            Served p \<Rightarrow> e = Serving Primary p
          | ToFallback \<Rightarrow> settled (steps fuel pf (startHttpFallback pf)) \<and>
                          e = ending_of (steps fuel pf (startHttpFallback pf)))"
  using assms
  by (cases "snd (startServer pf DEFAULT_PORT 0)")
     (auto simp: main_def split_beta runTicks_def Let_def split: if_splits)

lemma primary_listens_only:
  "list_all (\<lambda>a. fst a = Primary) (listens (fst (startServer pf DEFAULT_PORT 0)))"
proof -
  obtain ps where "listens (fst (startServer pf DEFAULT_PORT 0)) = map (Pair Primary) (DEFAULT_PORT # ps)"
    using startServer_listens [of DEFAULT_PORT pf 0] by (auto simp: DEFAULT_PORT_def MAX_PORT_def)
  then show ?thesis
    by (simp add: list_all_iff)
qed

text \<open>
  C5. Let a bind fail with an error whose code is not \<^verbatim>\<open>EADDRINUSE\<close>.
  Under Primary, at a port \<open>p\<close> reached after conflicts at all earlier ports: the failed
  attempt is followed by two console lines, the call of \<^verbatim>\<open>startHttpFallback\<close> and its bind
  attempt at port 3000; no timer is set from then on and no port is attempted under
  Primary again.
  Under Fallback: emitting the error on a server with a listener prints the fatal message
  and exits with status 1; every run settles within twelve emitted events; and a run in
  which such an error answered a Fallback attempt ends with exit status 1 or with an
  uncaught exception, never with a server bound.
\<close>

theorem non_conflict_error_handling:
  assumes "code \<noteq> ''EADDRINUSE''"
  shows "(3000 \<le> p \<and> p \<le> 3010 \<and>
          (\<forall>q. 3000 \<le> q \<and> q < p \<longrightarrow> pf Primary q = Error ''EADDRINUSE'') \<and>
          pf Primary p = Error code \<longrightarrow>
            (\<exists>pre post.
               trace pf n =
                 pre @ [Listen Primary p,
                        ConsoleError ''Server error:'',
                        ConsoleLog ''Attempting fallback to native HTTP server...'',
                        ConsoleLog ''Initializing native HTTP server fallback...'',
                        Listen Fallback 3000] @ post \<and>
               listens pre = map (Pair Primary) [3000..<p] \<and>
               delays post = [] \<and>
               list_all (\<lambda>a. fst a = Fallback) (listens post))) \<and>
         (errorListeners st \<noteq> [] \<longrightarrow>
            dispatch pf (EmitError code) st =
              st\<lparr>events := events st @
                   [ConsoleError ''Fatal error: Unable to start server on any available port'',
                    ProcessExit 1],
                 status := Exited 1\<rparr>) \<and>
         (\<exists>e. main pf 12 = Some (trace pf 12, e)) \<and>
         (main pf fuel = Some (tr, e) \<and> (Fallback, q) \<in> set (listens tr) \<and>
          pf Fallback q = Error code \<longrightarrow> e = Exit 1 \<or> (\<exists>x. e = Crash x))"
proof (intro conjI impI)
  assume a: "3000 \<le> p \<and> p \<le> 3010 \<and>
          (\<forall>q. 3000 \<le> q \<and> q < p \<longrightarrow> pf Primary q = Error ''EADDRINUSE'') \<and>
          pf Primary p = Error code"
  have "snd (startServer pf DEFAULT_PORT 0) = ToFallback \<and>
         (\<exists>pre. fst (startServer pf DEFAULT_PORT 0) =
            pre @ [Listen Primary p, ConsoleError ''Server error:'',
                   ConsoleLog ''Attempting fallback to native HTTP server...''] \<and>
            listens pre = map (Pair Primary) [DEFAULT_PORT..<p] \<and>
            delays pre = map (\<lambda>i. RETRY_DELAY * 2 ^ i) [0..<0 + (p - DEFAULT_PORT)])"
    using a assms by (intro startServer_other_after_conflicts) (simp_all add: DEFAULT_PORT_def MAX_PORT_def)
  then obtain pre where h: "snd (startServer pf DEFAULT_PORT 0) = ToFallback"
    and f: "fst (startServer pf DEFAULT_PORT 0) =
            pre @ [Listen Primary p, ConsoleError ''Server error:'',
                   ConsoleLog ''Attempting fallback to native HTTP server...'']"
    and l: "listens pre = map (Pair Primary) [DEFAULT_PORT..<p]"
    by blast
  obtain post where p: "events (steps n pf (startHttpFallback pf)) =
      [ConsoleLog ''Initializing native HTTP server fallback...'', Listen Fallback DEFAULT_PORT] @ post"
    and q: "list_all fallbackEvent post"
    using fallback_phase_events [of n pf] by blast
  let ?pre = "ConsoleLog ''Starting Express.js web server...'' # pre"
  have "trace pf n =
       ?pre @ [Listen Primary p,
               ConsoleError ''Server error:'',
               ConsoleLog ''Attempting fallback to native HTTP server...'',
               ConsoleLog ''Initializing native HTTP server fallback...'',
               Listen Fallback 3000] @ post"
    unfolding trace_unfold h f p by (simp add: DEFAULT_PORT_def)
  moreover have "listens ?pre = map (Pair Primary) [3000..<p]"
    using l by (simp add: DEFAULT_PORT_def)
  moreover have "delays post = []"
    using fallbackEvents_readings [OF q] by simp
  moreover have "list_all (\<lambda>a. fst a = Fallback) (listens post)"
    using fallbackEvents_readings [OF q] by (simp add: list_all_iff)
  ultimately show "\<exists>pre post.
               trace pf n =
                 pre @ [Listen Primary p,
                        ConsoleError ''Server error:'',
                        ConsoleLog ''Attempting fallback to native HTTP server...'',
                        ConsoleLog ''Initializing native HTTP server fallback...'',
                        Listen Fallback 3000] @ post \<and>
               listens pre = map (Pair Primary) [3000..<p] \<and>
               delays post = [] \<and>
               list_all (\<lambda>a. fst a = Fallback) (listens post)"
    by blast
next
  assume "errorListeners st \<noteq> []"
  with assms show "dispatch pf (EmitError code) st =
              st\<lparr>events := events st @
                   [ConsoleError ''Fatal error: Unable to start server on any available port'',
                    ProcessExit 1],
                 status := Exited 1\<rparr>"
    by (rule dispatch_fatal_code)
next
  show "\<exists>e. main pf 12 = Some (trace pf 12, e)"
    by (rule main_returns)
next
  assume b: "main pf fuel = Some (tr, e) \<and> (Fallback, q) \<in> set (listens tr) \<and>
          pf Fallback q = Error code"
  then have m: "main pf fuel = Some (tr, e)" and mem: "(Fallback, q) \<in> set (listens tr)"
    and err: "pf Fallback q = Error code"
    by simp_all
  note me = main_ending [OF m]
  show "e = Exit 1 \<or> (\<exists>x. e = Crash x)"
  proof (cases "snd (startServer pf DEFAULT_PORT 0)")
    case (Served x)
    then have "listens tr = listens (fst (startServer pf DEFAULT_PORT 0))"
      using me by (simp add: trace_unfold)
    with mem primary_listens_only [of pf] show ?thesis
      by (auto simp: list_all_iff)
  next
    case ToFallback
    let ?st = "steps fuel pf (startHttpFallback pf)"
    from me ToFallback have s: "settled ?st" and e: "e = ending_of ?st"
      and tr: "tr = trace pf fuel"
      by simp_all
    have "listens tr = listens (fst (startServer pf DEFAULT_PORT 0)) @ listens (events ?st)"
      unfolding tr trace_unfold ToFallback by (simp add: listens_append)
    with mem primary_listens_only [of pf] have "(Fallback, q) \<in> set (listens (events ?st))"
      by (auto simp: list_all_iff)
    from settled_after_fatal [OF s this err assms] show ?thesis
      unfolding e .
  qed
qed

lemma noAccess_fallback:
  "steps 12 noAccess (startHttpFallback noAccess) =
     \<lparr>errorListeners = [3000], listeningCallbacks = [3000], handle = None, nextTicks = [],
      events = [ConsoleLog ''Initializing native HTTP server fallback...'', Listen Fallback 3000,
                ConsoleError ''Fatal error: Unable to start server on any available port'',
                ProcessExit 1],
      status = Exited 1\<rparr>"
proof -
  have start: "startHttpFallback noAccess =
     \<lparr>errorListeners = [3000], listeningCallbacks = [3000], handle = None,
      nextTicks = [EmitError ''EACCES''],
      events = [ConsoleLog ''Initializing native HTTP server fallback...'', Listen Fallback 3000],
      status = Running\<rparr>"
    by (simp add: startHttpFallback_def startHttpServerWithFallback_def noAccess_def DEFAULT_PORT_def)
  let ?st0 = "\<lparr>errorListeners = [3000], listeningCallbacks = [3000], handle = None,
      nextTicks = [EmitError ''EACCES''],
      events = [ConsoleLog ''Initializing native HTTP server fallback...'', Listen Fallback 3000],
      status = Running\<rparr>"
  have "steps (Suc 11) noAccess ?st0 =
        steps 11 noAccess (dispatch noAccess (EmitError ''EACCES'') (?st0\<lparr>nextTicks := []\<rparr>))"
    by (rule steps_tick) simp_all
  moreover have "Suc 11 = (12::nat)"
    by simp
  ultimately have "steps 12 noAccess ?st0 =
        steps 11 noAccess (dispatch noAccess (EmitError ''EACCES'') (?st0\<lparr>nextTicks := []\<rparr>))"
    by (simp only:)
  then show ?thesis
    unfolding start by (simp add: dispatch_fatal_code steps_stopped)
qed

lemma noAccess_run:
  "main noAccess 12 =
     Some ([ConsoleLog ''Starting Express.js web server...'',
            Listen Primary 3000,
            ConsoleError ''Server error:'',
            ConsoleLog ''Attempting fallback to native HTTP server...'',
            ConsoleLog ''Initializing native HTTP server fallback...'',
            Listen Fallback 3000,
            ConsoleError ''Fatal error: Unable to start server on any available port'',
            ProcessExit 1], Exit 1)"
proof -
  have "startServer noAccess DEFAULT_PORT 0 =
     ([Listen Primary DEFAULT_PORT, ConsoleError ''Server error:'',
       ConsoleLog ''Attempting fallback to native HTTP server...''], ToFallback)"
    by (rule startServer_other [of _ _ "''EACCES''"]) (simp_all add: noAccess_def)
  then show ?thesis
    by (simp add: main_def trace_def runTicks_def settled_def ending_of_def noAccess_fallback
        DEFAULT_PORT_def)
qed

theorem non_conflict_error_handling_witness:
  "(\<exists>pre post.
      trace noAccess 12 =
        pre @ [Listen Primary 3000,
               ConsoleError ''Server error:'',
               ConsoleLog ''Attempting fallback to native HTTP server...'',
               ConsoleLog ''Initializing native HTTP server fallback...'',
               Listen Fallback 3000] @ post \<and>
      listens pre = map (Pair Primary) [3000..<3000] \<and>
      delays post = [] \<and>
      list_all (\<lambda>a. fst a = Fallback) (listens post)) \<and>
   main noAccess 12 = Some (trace noAccess 12, Exit 1) \<and>
   (Fallback, 3000) \<in> set (listens (trace noAccess 12)) \<and>
   noAccess Fallback 3000 = Error ''EACCES''"
proof -
  have c: "''EACCES'' \<noteq> ''EADDRINUSE''"
    by simp
  have t: "trace noAccess 12 =
           [ConsoleLog ''Starting Express.js web server...'',
            Listen Primary 3000,
            ConsoleError ''Server error:'',
            ConsoleLog ''Attempting fallback to native HTTP server...'',
            ConsoleLog ''Initializing native HTTP server fallback...'',
            Listen Fallback 3000,
            ConsoleError ''Fatal error: Unable to start server on any available port'',
            ProcessExit 1]"
    using noAccess_run main_ending [of noAccess 12] by simp
  have m: "main noAccess 12 = Some (trace noAccess 12, Exit 1)"
    using noAccess_run t by simp
  have mem: "(Fallback, 3000) \<in> set (listens (trace noAccess 12))"
    unfolding t by simp
  have err: "noAccess Fallback 3000 = Error ''EACCES''" and err': "noAccess Primary 3000 = Error ''EACCES''"
    by (simp_all add: noAccess_def)
  have none: "\<forall>q. (3000::nat) \<le> q \<and> q < 3000 \<longrightarrow> noAccess Primary q = Error ''EADDRINUSE''"
    by auto
  from non_conflict_error_handling [OF c, of 3000 noAccess 12 "startHttpFallback noAccess" 12
      "trace noAccess 12" "Exit 1" 3000] none err' m mem err
  show ?thesis
    by simp
qed

end
